theory Spec2Isabelle
  imports Main "HOL-Library.Sublist"
begin

unbundle bit_operations_syntax

section \<open>JavaScript values read from the configuration\<close>

text \<open>
  \<^verbatim>\<open>config.get(key)\<close> hands back whatever the settings store holds. The values the
  model covers are \<^verbatim>\<open>undefined\<close> (key absent), \<^verbatim>\<open>null\<close>, booleans, integral numbers
  and strings.
\<close>

datatype jsval = JUndefined | JNull | JBool bool | JNum int | JStr string

text \<open>
  Decimal rendering of an integral number, as \<^verbatim>\<open>Number.prototype.toString\<close> and a
  template literal produce it for integers of magnitude below \<open>10^21\<close> (every port
  number is). \<open>digit_char\<close> is only ever applied to a digit, a number below ten.
\<close>

definition digit_char :: "nat \<Rightarrow> char" where
  "digit_char d = ''0123456789'' ! d"

fun nat_to_string :: "nat \<Rightarrow> string" where
  "nat_to_string n =
     (if n < 10 then [digit_char n]
      else nat_to_string (n div 10) @ [digit_char (n mod 10)])"

declare nat_to_string.simps [simp del]

definition js_number_to_string :: "int \<Rightarrow> string" where
  "js_number_to_string i =
     (if i < 0 then CHR ''-'' # nat_to_string (nat (- i)) else nat_to_string (nat i))"

text \<open>The abstract operation ToString, used by template literals and property keys.\<close>

fun js_to_string :: "jsval \<Rightarrow> string" where
  "js_to_string JUndefined = ''undefined''"
| "js_to_string JNull = ''null''"
| "js_to_string (JBool b) = (if b then ''true'' else ''false'')"
| "js_to_string (JNum i) = js_number_to_string i"
| "js_to_string (JStr s) = s"

text \<open>
  Loose equality \<^verbatim>\<open>v == "literal"\<close> against a string that is not numeric: only the
  same string is equal (a number or boolean is compared with \<^verbatim>\<open>NaN\<close>, and
  \<^verbatim>\<open>null\<close>/\<^verbatim>\<open>undefined\<close> equal only each other).
\<close>

fun js_loose_eq_str :: "jsval \<Rightarrow> string \<Rightarrow> bool" where
  "js_loose_eq_str (JStr s) t = (s = t)"
| "js_loose_eq_str _ t = False"

text \<open>\<^verbatim>\<open>String.prototype.endsWith\<close>.\<close>

definition endsWith :: "string \<Rightarrow> string \<Rightarrow> bool" where
  "endsWith s t = (length t \<le> length s \<and> drop (length s - length t) s = t)"


section \<open>The enum \<^verbatim>\<open>TransportLayer\<close>\<close>

text \<open>
  \<^verbatim>\<open>enum TransportLayer { STDIO = "stdio", TCP = "tcp", TCP_RANDOM = "tcp-random",
  TCP_ATTACH = "tcp-attach" }\<close> is a string enum: at run time it is the plain object
  whose own properties are the four member \<^emph>\<open>names\<close>, each holding its string value.
  A string enum gets no reverse mapping from values to names.
\<close>

definition TransportLayer :: "(string \<times> string) list" where
  "TransportLayer =
     [(''STDIO'', ''stdio''), (''TCP'', ''tcp''),
      (''TCP_RANDOM'', ''tcp-random''), (''TCP_ATTACH'', ''tcp-attach'')]"

definition STDIO :: string where "STDIO = ''stdio''"
definition TCP :: string where "TCP = ''tcp''"
definition TCP_RANDOM :: string where "TCP_RANDOM = ''tcp-random''"
definition TCP_ATTACH :: string where "TCP_ATTACH = ''tcp-attach''"

text \<open>
  The enum object is an ordinary object, so a property it does not own is looked up on
  \<^verbatim>\<open>Object.prototype\<close>, whose properties all hold a function or an object.
\<close>

definition object_prototype_keys :: "string list" where
  "object_prototype_keys =
     [''constructor'', ''toString'', ''toLocaleString'', ''valueOf'', ''hasOwnProperty'',
      ''isPrototypeOf'', ''propertyIsEnumerable'', ''__proto__'', ''__defineGetter__'',
      ''__defineSetter__'', ''__lookupGetter__'', ''__lookupSetter__'']"

text \<open>
  \<^verbatim>\<open>TransportLayer[transportLayer] == undefined\<close>: the index is converted to a property
  key by ToString; the test holds when neither the enum object nor its prototype has
  that property.
\<close>

definition TransportLayer_index_undefined :: "jsval \<Rightarrow> bool" where
  "TransportLayer_index_undefined v =
     (map_of TransportLayer (js_to_string v) = None
      \<and> js_to_string v \<notin> set object_prototype_keys)"


section \<open>Effects of the activation routine\<close>

datatype effect =
    LogInfo string
  | StatusUpdate string
  | StatusDispose
  | ConsoleError string
  | ShowWarningMessage string
  | DownloadServerIfNeeded string
  | CreateOutputChannel string
  | Mkdir string
  | ConfigUpdate string jsval
  | Chmod string nat
  | CreateServer
  | Listen "nat option"
  | CreateLanguageClient
  | ClientStart
  | RegisterTextDocumentContentProvider string
  | RegisterCommand string
  | RegisterCodeLensProvider string


section \<open>Transport selection (lines 81--90 of \<^verbatim>\<open>languageSetup.ts\<close>)\<close>

text \<open>
  The first statement of the closure that builds the server options: the configured
  value is kept when the index test does not come out \<^verbatim>\<open>undefined\<close>; otherwise the
  fallback is logged, written to the configuration and taken. The result is the value
  of \<^verbatim>\<open>transportLayer\<close> afterwards, with the effects in program order.
\<close>

definition select_transport :: "jsval \<Rightarrow> jsval \<times> effect list" where
  "select_transport transportLayer =
     (if TransportLayer_index_undefined transportLayer then
        (JStr STDIO,
         [LogInfo (''Unknown transport layer: '' @ js_to_string transportLayer
                   @ ''. Falling back to default: '' @ STDIO),
          ConfigUpdate ''languageServer.transport'' (JStr STDIO)])
      else (transportLayer, []))"

definition config_writes :: "effect list \<Rightarrow> (string \<times> jsval) list" where
  "config_writes es = concat (map (\<lambda>e. case e of ConfigUpdate k v \<Rightarrow> [(k, v)] | _ \<Rightarrow> []) es)"


section \<open>The stdio connector (lines 334--347)\<close>

type_synonym env = "string \<rightharpoonup> string"

record TServerDebugConfig =
  is_enabled :: bool
  auto_suspend :: bool
  port :: int

record Executable =
  command :: string
  args :: "string list"
  cwd :: "string option"
  env :: env

definition stdio_launch ::
  "string option \<Rightarrow> string \<Rightarrow> env \<Rightarrow> TServerDebugConfig \<Rightarrow> Executable" where
  "stdio_launch workspaceFolder startPath env0 debugConfiguration =
     (let env1 =
        (if is_enabled debugConfiguration then
           env0(''KOTLIN_LANGUAGE_SERVER_OPTS'' \<mapsto>
             ''-Xdebug -agentlib:jdwp=transport=dt_socket,address=''
             @ js_number_to_string (port debugConfiguration)
             @ '',server=y,quiet=y,suspend=''
             @ (if auto_suspend debugConfiguration then ''y'' else ''n''))
         else env0)
      in \<lparr>command = startPath, args = [], cwd = workspaceFolder, env = env1\<rparr>)"


section \<open>Promises, sockets and spawned processes\<close>

text \<open>
  A promise settles at most once: \<^verbatim>\<open>resolve\<close> and \<^verbatim>\<open>reject\<close> act only on a pending
  promise and are ignored afterwards.
\<close>

datatype 'a promise = Pending | Resolved 'a | Rejected string

fun resolve :: "'a \<Rightarrow> 'a promise \<Rightarrow> 'a promise" where
  "resolve x Pending = Resolved x"
| "resolve x p = p"

fun reject :: "string \<Rightarrow> 'a promise \<Rightarrow> 'a promise" where
  "reject e Pending = Rejected e"
| "reject e p = p"

type_synonym socket = nat

record StreamInfo =
  reader :: socket
  writer :: socket

text \<open>
  A call of \<^verbatim>\<open>child_process.spawn\<close>. When the call passes no \<^verbatim>\<open>env\<close> option
  (\<open>sp_env = None\<close>) the child runs with the parent's \<^verbatim>\<open>process.env\<close>.
\<close>

record spawn_call =
  sp_command :: string
  sp_args :: "string list"
  sp_env :: "env option"

definition child_env :: "env \<Rightarrow> spawn_call \<Rightarrow> env" where
  "child_env process_env sp = (case sp_env sp of None \<Rightarrow> process_env | Some e \<Rightarrow> e)"


section \<open>The TCP launch connector (lines 277--307)\<close>

datatype server_status = Binding | Listening nat | Closed

record launch_state =
  ls_server :: server_status
  ls_promise :: "StreamInfo promise"
  ls_listens :: "nat option list"
  ls_spawned :: "spawn_call list"
  ls_accepted :: "socket list"
  ls_refused :: "socket list"
  ls_output :: "string list"
  ls_log :: "(string \<times> string list) list"

text \<open>
  What the net and child-process runtime can deliver to the callbacks the connector
  registered: the listener became ready on a bound port, a client tried to connect,
  the listener emitted an error, the child wrote to stdout or stderr, the child
  exited with a code and a signal.
\<close>

datatype launch_event =
    EvListening nat
  | EvConnection socket
  | EvError string
  | EvProcData string
  | EvProcExit jsval jsval

text \<open>
  The synchronous body of \<^verbatim>\<open>tcp_launch\<close>: the server is created with its connection
  listener, \<^verbatim>\<open>listen\<close> is called once with the requested port (\<open>None\<close> is \<^verbatim>\<open>null\<close>,
  a port chosen by the operating system) and the error handler is registered. Nothing
  is spawned yet and the returned promise is pending.
\<close>

definition tcp_launch :: "string \<Rightarrow> nat option \<Rightarrow> launch_state" where
  "tcp_launch startScriptPath tcpPort =
     \<lparr>ls_server = Binding, ls_promise = Pending, ls_listens = [tcpPort],
      ls_spawned = [], ls_accepted = [], ls_refused = [], ls_output = [],
      ls_log = [(''Creating server.'', [])]\<rparr>"

text \<open>
  The callbacks. The \<^verbatim>\<open>listen\<close> callback runs once, when the server is ready; it reads
  the bound port from \<^verbatim>\<open>server.address()\<close> and spawns the start script. The
  connection listener runs for a connection that reaches a listening server; it closes
  the server and resolves with the socket. A connection attempt on a server that is
  not listening is refused by the runtime and reaches no callback. The process
  callbacks exist once the process is spawned.
\<close>

fun launch_step :: "string \<Rightarrow> launch_state \<Rightarrow> launch_event \<Rightarrow> launch_state" where
  "launch_step startScriptPath st (EvListening bound) =
     (case ls_server st of
        Binding \<Rightarrow>
          st\<lparr>ls_server := Listening bound,
             ls_spawned := ls_spawned st @
               [\<lparr>sp_command = startScriptPath,
                 sp_args = [''--tcpClientPort'', nat_to_string bound],
                 sp_env = None\<rparr>],
             ls_log := ls_log st @
               [(''Creating client at {} via TCP port {}'',
                 [startScriptPath, nat_to_string bound])]\<rparr>
      | _ \<Rightarrow> st)"
| "launch_step startScriptPath st (EvConnection sock) =
     (case ls_server st of
        Listening bound \<Rightarrow>
          st\<lparr>ls_log := ls_log st @ [(''Closing server since client has connected.'', [])],
             ls_server := Closed,
             ls_promise := resolve \<lparr>reader = sock, writer = sock\<rparr> (ls_promise st),
             ls_accepted := ls_accepted st @ [sock]\<rparr>
      | _ \<Rightarrow> st\<lparr>ls_refused := ls_refused st @ [sock]\<rparr>)"
| "launch_step startScriptPath st (EvError e) =
     st\<lparr>ls_promise := reject e (ls_promise st)\<rparr>"
| "launch_step startScriptPath st (EvProcData d) =
     (if ls_spawned st = [] then st else st\<lparr>ls_output := ls_output st @ [d]\<rparr>)"
| "launch_step startScriptPath st (EvProcExit code sig) =
     (if ls_spawned st = [] then st
      else st\<lparr>ls_output := ls_output st @
             [''The language server exited, code: '' @ js_to_string code
              @ '', signal: '' @ js_to_string sig @ [CHR 0x0A]]\<rparr>)"

definition launch_run :: "string \<Rightarrow> nat option \<Rightarrow> launch_event list \<Rightarrow> launch_state" where
  "launch_run startScriptPath tcpPort evs =
     foldl (launch_step startScriptPath) (tcp_launch startScriptPath tcpPort) evs"

fun is_connection :: "launch_event \<Rightarrow> bool" where
  "is_connection (EvConnection s) = True"
| "is_connection _ = False"

fun is_error :: "launch_event \<Rightarrow> bool" where
  "is_error (EvError e) = True"
| "is_error _ = False"


section \<open>The TCP attach connector (lines 309--332)\<close>

text \<open>
  The listener table of the server's event emitter: event name, the listener (the
  \<^verbatim>\<open>connection_listener\<close> closure of invocation \<open>i\<close> is named \<open>i\<close>) and whether it was
  added with \<^verbatim>\<open>once\<close>.
\<close>

record registration =
  reg_event :: string
  reg_listener :: nat
  reg_once :: bool

definition removeAllListeners :: "string \<Rightarrow> registration list \<Rightarrow> registration list" where
  "removeAllListeners name em = filter (\<lambda>r. reg_event r \<noteq> name) em"

definition once :: "string \<Rightarrow> nat \<Rightarrow> registration list \<Rightarrow> registration list" where
  "once name l em = em @ [\<lparr>reg_event = name, reg_listener = l, reg_once = True\<rparr>]"

text \<open>\<^verbatim>\<open>removeListener\<close> removes at most one registration, the most recently added.\<close>

fun remove_first :: "string \<Rightarrow> nat \<Rightarrow> registration list \<Rightarrow> registration list" where
  "remove_first name l [] = []"
| "remove_first name l (r # rs) =
     (if reg_event r = name \<and> reg_listener r = l then rs else r # remove_first name l rs)"

definition removeListener :: "string \<Rightarrow> nat \<Rightarrow> registration list \<Rightarrow> registration list" where
  "removeListener name l em = rev (remove_first name l (rev em))"

definition listeners :: "string \<Rightarrow> registration list \<Rightarrow> nat list" where
  "listeners name em = map reg_listener (filter (\<lambda>r. reg_event r = name) em)"

record attach_state =
  as_emitter :: "registration list"
  as_promises :: "StreamInfo promise list"
  as_close_handlers :: "(socket \<times> nat) list"
  as_listens :: "nat list"
  as_unhandled :: "string list"

datatype attach_event =
    AtInvoke
  | AtConnection socket
  | AtSocketClose socket
  | AtError string

text \<open>
  \<^verbatim>\<open>tcp_attach\<close> itself creates the server and calls \<^verbatim>\<open>listen\<close> once; it registers no
  listener on the server.
\<close>

definition tcp_attach :: "nat \<Rightarrow> attach_state" where
  "tcp_attach tcpPort =
     \<lparr>as_emitter = [], as_promises = [], as_close_handlers = [],
      as_listens = [tcpPort], as_unhandled = []\<rparr>"

text \<open>
  The body of \<^verbatim>\<open>connection_listener\<close> of invocation \<open>i\<close>, called with a socket: a
  one-shot close handler is put on the socket, then the promise of invocation \<open>i\<close> is
  resolved with the socket as reader and writer.
\<close>

definition connection_listener :: "socket \<Rightarrow> attach_state \<Rightarrow> nat \<Rightarrow> attach_state" where
  "connection_listener sock st i =
     st\<lparr>as_close_handlers := as_close_handlers st @ [(sock, i)],
        as_promises := (as_promises st)
          [i := resolve \<lparr>reader = sock, writer = sock\<rparr> (as_promises st ! i)]\<rparr>"

text \<open>The close handler armed by invocation \<open>i\<close>.\<close>

definition close_handler :: "attach_state \<Rightarrow> nat \<Rightarrow> attach_state" where
  "close_handler st i = st\<lparr>as_emitter := removeListener ''connect'' i (as_emitter st)\<rparr>"

text \<open>
  One invocation of the returned channel source: the promise of this invocation is
  created, the listeners of the event \<^verbatim>\<open>"connect"\<close> are removed and the new listener is
  added, once, to the event \<^verbatim>\<open>"connection"\<close>. Emitting an event calls the listeners
  registered for it in order, the one-shot ones being taken off the table first; an
  \<^verbatim>\<open>"error"\<close> event nobody listens to is thrown by the emitter instead.
\<close>

fun attach_step :: "attach_state \<Rightarrow> attach_event \<Rightarrow> attach_state" where
  "attach_step st AtInvoke =
     (let i = length (as_promises st) in
      st\<lparr>as_promises := as_promises st @ [Pending],
         as_emitter := once ''connection'' i (removeAllListeners ''connect'' (as_emitter st))\<rparr>)"
| "attach_step st (AtConnection sock) =
     foldl (connection_listener sock)
       (st\<lparr>as_emitter :=
            filter (\<lambda>r. \<not> (reg_event r = ''connection'' \<and> reg_once r)) (as_emitter st)\<rparr>)
       (listeners ''connection'' (as_emitter st))"
| "attach_step st (AtSocketClose sock) =
     foldl close_handler
       (st\<lparr>as_close_handlers := filter (\<lambda>h. fst h \<noteq> sock) (as_close_handlers st)\<rparr>)
       (map snd (filter (\<lambda>h. fst h = sock) (as_close_handlers st)))"
| "attach_step st (AtError e) =
     (if listeners ''error'' (as_emitter st) = []
      then st\<lparr>as_unhandled := as_unhandled st @ [e]\<rparr> else st)"

definition attach_run :: "nat \<Rightarrow> attach_event list \<Rightarrow> attach_state" where
  "attach_run tcpPort evs = foldl attach_step (tcp_attach tcpPort) evs"

fun is_attach_connection :: "attach_event \<Rightarrow> bool" where
  "is_attach_connection (AtConnection s) = True"
| "is_attach_connection _ = False"


section \<open>The activation routine (lines 37--229)\<close>

text \<open>
  The parameter object of \<^verbatim>\<open>activateLanguageServer\<close>: the configuration keys it reads,
  the two storage locations of the extension context (\<^verbatim>\<open>storageUri\<close> is absent when no
  workspace is open), the Java installation and the Java options.
\<close>

record ServerSetupParams =
  cfg_languageServer_path :: "string option"
  cfg_languageServer_watchFiles :: "string list option"
  cfg_languageServer_transport :: jsval
  cfg_languageServer_port :: nat
  cfg_languageServer_debugAttach :: TServerDebugConfig
  cfg_debugAdapter_enabled :: bool
  globalStoragePath :: string
  storageUri :: "string option"
  javaHome :: "string option"
  javaOpts :: "string option"

text \<open>
  What the routine obtains from outside the file: the environment of the process, the
  functions \<^verbatim>\<open>path.join\<close> and \<^verbatim>\<open>path.resolve\<close> of the platform (applied to the list
  of their arguments; their normalisation and their resolution against the working
  directory are the platform's and are not modelled), the two helpers of
  \<^verbatim>\<open>util/osUtils\<close> (not part of the sources at hand, so taken as given), the first
  workspace folder, and the outcome of each operation that can fail (\<open>None\<close>: it
  succeeds; otherwise the error, rendered as a string).
\<close>

record host =
  process_env :: env
  path_join :: "string list \<Rightarrow> string"
  path_resolve :: "string list \<Rightarrow> string"
  isOSUnixoid :: bool
  correctScriptName :: "string \<Rightarrow> string"
  workspaceFolder :: "string option"
  download_error :: "string option"
  storage_exists :: bool
  mkdir_error :: "string option"
  script_mode :: "string + nat"
  chmod_error :: "string option"
  client_start_error :: "string option"

text \<open>A string or absent value is truthy when it is present and not empty.\<close>

fun truthy :: "string option \<Rightarrow> bool" where
  "truthy None = False"
| "truthy (Some s) = (s \<noteq> [])"

definition langServerInstallDir :: "ServerSetupParams \<Rightarrow> host \<Rightarrow> string" where
  "langServerInstallDir p h = path_join h [globalStoragePath p, ''langServerInstall'']"

definition startScriptPath :: "ServerSetupParams \<Rightarrow> host \<Rightarrow> string" where
  "startScriptPath p h =
     (if truthy (cfg_languageServer_path p) then the (cfg_languageServer_path p)
      else path_resolve h [langServerInstallDir p h, ''server'', ''bin'',
                           correctScriptName h ''kotlin-language-server''])"

datatype ServerOptions =
    SOExecutable Executable
  | SOLaunch string "nat option"
  | SOUndefined

text \<open>
  The environment handed to the stdio connector: a copy of \<^verbatim>\<open>process.env\<close> with
  \<^verbatim>\<open>JAVA_HOME\<close> and \<^verbatim>\<open>JAVA_OPTS\<close> set when the values are truthy (lines 107--115).
\<close>

definition stdio_env :: "ServerSetupParams \<Rightarrow> host \<Rightarrow> env" where
  "stdio_env p h =
     (let env0 = process_env h;
          env1 = (if truthy (javaHome p) then env0(''JAVA_HOME'' \<mapsto> the (javaHome p)) else env0);
          env2 = (if truthy (javaOpts p) then env1(''JAVA_OPTS'' \<mapsto> the (javaOpts p)) else env1)
      in env2)"

text \<open>
  The branches on \<^verbatim>\<open>transportLayer\<close> after the selection and the chmod (lines 98--142).
  The \<^verbatim>\<open>tcp-attach\<close> branch calls \<^verbatim>\<open>tcp_attach\<close>, which creates and binds the server,
  and drops what it returns; the closure then ends without a value.
\<close>

definition connect_via :: "ServerSetupParams \<Rightarrow> host \<Rightarrow> jsval \<Rightarrow> effect list \<times> ServerOptions" where
  "connect_via p h transportLayer =
     (if js_loose_eq_str transportLayer STDIO then
        ([LogInfo ''Connecting via Stdio.''],
         SOExecutable (stdio_launch (workspaceFolder h) (startScriptPath p h) (stdio_env p h)
                         (cfg_languageServer_debugAttach p)))
      else if js_loose_eq_str transportLayer TCP then
        ([LogInfo (''Connecting via TCP, port: '' @ nat_to_string (cfg_languageServer_port p))],
         SOLaunch (startScriptPath p h) (Some (cfg_languageServer_port p)))
      else if js_loose_eq_str transportLayer TCP_RANDOM then
        ([], SOLaunch (startScriptPath p h) None)
      else if js_loose_eq_str transportLayer TCP_ATTACH then
        ([CreateServer, Listen (Some (cfg_languageServer_port p))], SOUndefined)
      else ([], SOUndefined))"

text \<open>
  The closure that builds the server options (lines 82--143): selection, then the
  executable bit on the start script unless attaching or not on a Unix-like system
  (\<^verbatim>\<open>statSync\<close> and \<^verbatim>\<open>chmodSync\<close> throw on failure; \<^verbatim>\<open>S_IXUSR\<close> is \<open>0o100\<close>), then
  the branches.
\<close>

definition serverOptions :: "ServerSetupParams \<Rightarrow> host \<Rightarrow> effect list \<times> (string + ServerOptions)" where
  "serverOptions p h =
     (let (transportLayer, es) = select_transport (cfg_languageServer_transport p) in
      if \<not> js_loose_eq_str transportLayer TCP_ATTACH \<and> isOSUnixoid h then
        (case script_mode h of
           Inl err \<Rightarrow> (es, Inl err)
         | Inr mode \<Rightarrow>
            (case chmod_error h of
               Some err \<Rightarrow> (es, Inl err)
             | None \<Rightarrow>
                (let (es', so) = connect_via p h transportLayer in
                 (es @ [Chmod (startScriptPath p h) ((mode AND 511) OR 64)] @ es', Inr so))))
      else
        (let (es', so) = connect_via p h transportLayer in (es @ es', Inr so)))"

datatype outcome = ReturnsUndefined | ReturnsKotlinApi | Throws string

text \<open>
  From the creation of the client on (lines 145--228). The client is created and
  started; the content provider and the override-member command are registered; the
  code lens and the three main-class commands are registered when the debug adapter is
  enabled and the start script path ends in \<^verbatim>\<open>kotlin-language-server\<close>; then the start
  of the client is awaited.
\<close>

definition register_and_await :: "ServerSetupParams \<Rightarrow> host \<Rightarrow> effect list \<times> outcome" where
  "register_and_await p h =
     ([CreateLanguageClient, ClientStart,
       RegisterTextDocumentContentProvider ''kls'',
       RegisterCommand ''kotlin.overrideMember'']
      @ (if cfg_debugAdapter_enabled p \<and> endsWith (startScriptPath p h) ''kotlin-language-server''
         then [RegisterCodeLensProvider ''kotlin'',
               RegisterCommand ''kotlin.resolveMain'',
               RegisterCommand ''kotlin.runMain'',
               RegisterCommand ''kotlin.debugMain'']
         else []),
      (case client_start_error h of None \<Rightarrow> ReturnsKotlinApi | Some err \<Rightarrow> Throws err))"

text \<open>
  After the download step (lines 57--145): output channel, storage directory, server
  options. Reading \<^verbatim>\<open>context.storageUri.fsPath\<close> throws when there is no storage URI.
\<close>

definition prepare_and_connect :: "ServerSetupParams \<Rightarrow> host \<Rightarrow> effect list \<times> outcome" where
  "prepare_and_connect p h =
     (let es0 = [CreateOutputChannel ''Kotlin'', StatusDispose] in
      case storageUri p of
        None \<Rightarrow> (es0, Throws ''TypeError: Cannot read properties of undefined'')
      | Some storagePath \<Rightarrow>
         (if \<not> storage_exists h \<and> mkdir_error h \<noteq> None then
            (es0, Throws (the (mkdir_error h)))
          else
            (let es1 = es0 @ (if storage_exists h then [] else [Mkdir storagePath]);
                 (es2, so) = serverOptions p h in
             case so of
               Inl err \<Rightarrow> (es1 @ es2, Throws err)
             | Inr opts \<Rightarrow>
                (let (es3, out) = register_and_await p h in (es1 @ es2 @ es3, out)))))"

text \<open>
  The whole routine. Without a custom path the server is downloaded first; a failure
  there is caught: it is written to the console, a warning is shown and the routine
  returns without a value.
\<close>

definition activateLanguageServer :: "ServerSetupParams \<Rightarrow> host \<Rightarrow> effect list \<times> outcome" where
  "activateLanguageServer p h =
     (let es0 = [LogInfo ''Activating Kotlin Language Server...'',
                 StatusUpdate ''Activating Kotlin Language Server...''] in
      if \<not> truthy (cfg_languageServer_path p) then
        (case download_error h of
           Some err \<Rightarrow>
             (es0 @ [DownloadServerIfNeeded (langServerInstallDir p h),
                     ConsoleError err,
                     ShowWarningMessage
                       (''Could not update/download Kotlin Language Server: '' @ err)],
              ReturnsUndefined)
         | None \<Rightarrow>
             (let (es1, out) = prepare_and_connect p h in
              (es0 @ [DownloadServerIfNeeded (langServerInstallDir p h)] @ es1, out)))
      else
        (let (es1, out) = prepare_and_connect p h in (es0 @ es1, out)))"

definition registered_commands :: "effect list \<Rightarrow> string list" where
  "registered_commands es =
     concat (map (\<lambda>e. case e of RegisterCommand c \<Rightarrow> [c] | _ \<Rightarrow> []) es)"

definition warnings :: "effect list \<Rightarrow> string list" where
  "warnings es =
     concat (map (\<lambda>e. case e of ShowWarningMessage m \<Rightarrow> [m] | _ \<Rightarrow> []) es)"

text \<open>
  The environment of the server process that a connector starts, if it starts one:
  the stdio descriptor is spawned by the client library with the descriptor's
  environment; the launch connector spawns once its listener is ready on \<open>bound\<close>;
  without server options nothing is spawned.
\<close>

fun spawned_env :: "host \<Rightarrow> nat \<Rightarrow> ServerOptions \<Rightarrow> env option" where
  "spawned_env h bound (SOExecutable ex) = Some (env ex)"
| "spawned_env h bound (SOLaunch path tcpPort) =
     (case ls_spawned (launch_run path tcpPort [EvListening bound]) of
        [] \<Rightarrow> None
      | sp # _ \<Rightarrow> Some (child_env (process_env h) sp))"
| "spawned_env h bound SOUndefined = None"


section \<open>Notions used to state the properties\<close>

text \<open>The sockets of the connection attempts in a sequence of events, in order.\<close>

definition connections :: "launch_event list \<Rightarrow> socket list" where
  "connections evs = concat (map (\<lambda>ev. case ev of EvConnection s \<Rightarrow> [s] | _ \<Rightarrow> []) evs)"

text \<open>The port the listener is bound to: the one reported when it became ready.\<close>

fun bound_port :: "launch_event list \<Rightarrow> nat option" where
  "bound_port [] = None"
| "bound_port (EvListening b # evs) = Some b"
| "bound_port (ev # evs) = bound_port evs"

text \<open>
  The first event that reports the listener ready splits a sequence of events: the
  bound port and the events after it, if there is such an event.
\<close>

fun is_listening :: "launch_event \<Rightarrow> bool" where
  "is_listening (EvListening b) = True"
| "is_listening _ = False"

fun after_listening :: "launch_event list \<Rightarrow> (nat \<times> launch_event list) option" where
  "after_listening [] = None"
| "after_listening (EvListening b # evs) = Some (b, evs)"
| "after_listening (ev # evs) = after_listening evs"

text \<open>The first error the listener emits in a sequence of events.\<close>

fun first_error :: "launch_event list \<Rightarrow> string option" where
  "first_error [] = None"
| "first_error (EvError e # evs) = Some e"
| "first_error (ev # evs) = first_error evs"

text \<open>What holds of the launch connector after every sequence of events.\<close>

definition launch_inv :: "launch_state \<Rightarrow> bool" where
  "launch_inv st =
     (length (ls_accepted st) \<le> 1
      \<and> (ls_accepted st = [] \<longleftrightarrow> ls_server st \<noteq> Closed)
      \<and> (\<forall>s. ls_accepted st = [s] \<longrightarrow>
             ls_promise st = Resolved \<lparr>reader = s, writer = s\<rparr> \<or> (\<exists>e. ls_promise st = Rejected e))
      \<and> (ls_accepted st = [] \<longrightarrow> (\<forall>x. ls_promise st \<noteq> Resolved x)))"

text \<open>
  What holds of the attach connector after every sequence of events: no promise is
  rejected, and every listener on the server is registered for \<^verbatim>\<open>"connection"\<close>.
\<close>

definition attach_inv :: "attach_state \<Rightarrow> bool" where
  "attach_inv st =
     ((\<forall>pr \<in> set (as_promises st). \<forall>e. pr \<noteq> Rejected e)
      \<and> (\<forall>r \<in> set (as_emitter st). reg_event r = ''connection''))"

text \<open>The errors the listening socket of the attach connector emits, in order.\<close>

definition attach_errors :: "attach_event list \<Rightarrow> string list" where
  "attach_errors evs = concat (map (\<lambda>ev. case ev of AtError e \<Rightarrow> [e] | _ \<Rightarrow> []) evs)"

text \<open>
  The commands registered once the client has been created, as a function of the
  settings.
\<close>

definition expected_commands :: "ServerSetupParams \<Rightarrow> host \<Rightarrow> string list" where
  "expected_commands p h =
     ''kotlin.overrideMember'' #
     (if cfg_debugAdapter_enabled p \<and> endsWith (startScriptPath p h) ''kotlin-language-server''
      then [''kotlin.resolveMain'', ''kotlin.runMain'', ''kotlin.debugMain''] else [])"

text \<open>
  The server process that the server options built by the routine start, if they
  start one, has this environment; there are no server options when building them
  throws.
\<close>

definition server_process_env :: "ServerSetupParams \<Rightarrow> host \<Rightarrow> nat \<Rightarrow> env option" where
  "server_process_env p h bound =
     (case snd (serverOptions p h) of Inl err \<Rightarrow> None | Inr so \<Rightarrow> spawned_env h bound so)"

text \<open>
  A concrete setting used in the examples: a Unix-like host where everything succeeds
  and where joining and resolving a normalised absolute path with plain names puts
  slashes between them, and a configuration with a custom server path, debugging of
  the server enabled, a resolved Java home and Java options.
\<close>

definition join_slash :: "string list \<Rightarrow> string" where
  "join_slash parts = foldr (\<lambda>a b. if b = [] then a else a @ ''/'' @ b) parts []"

definition example_host :: host where
  "example_host =
     \<lparr>process_env = Map.empty, path_join = join_slash, path_resolve = join_slash,
      isOSUnixoid = True,
      correctScriptName = id, workspaceFolder = Some ''/home/u/project'',
      download_error = None, storage_exists = True, mkdir_error = None,
      script_mode = Inr 420, chmod_error = None, client_start_error = None\<rparr>"

definition example_params :: ServerSetupParams where
  "example_params =
     \<lparr>cfg_languageServer_path = Some ''/opt/kls/bin/server'',
      cfg_languageServer_watchFiles = None,
      cfg_languageServer_transport = JStr ''stdio'',
      cfg_languageServer_port = 0,
      cfg_languageServer_debugAttach = \<lparr>is_enabled = True, auto_suspend = False, port = 5005\<rparr>,
      cfg_debugAdapter_enabled = True,
      globalStoragePath = ''/home/u/.vscode/globalStorage/kotlin'',
      storageUri = Some ''/home/u/.vscode/workspaceStorage/1/kotlin'',
      javaHome = Some ''/usr/lib/jvm/java-17'',
      javaOpts = Some ''-Xmx2g''\<rparr>"

section \<open>Transport selection\<close>

text \<open>
  C1. The claim is that each of the four enum values is returned unchanged without a
  configuration write. The index test looks the configured value up among the member
  names of the enum object, not among its values, so for the configured value
  \<^verbatim>\<open>"tcp"\<close> the selection logs the value as unknown, writes \<^verbatim>\<open>"stdio"\<close> to the
  configuration and goes on with \<^verbatim>\<open>stdio\<close>.
\<close>

theorem select_transport_tcp_falls_back:
  "select_transport (JStr ''tcp'') =
     (JStr ''stdio'',
      [LogInfo ''Unknown transport layer: tcp. Falling back to default: stdio'',
       ConfigUpdate ''languageServer.transport'' (JStr ''stdio'')])"
  by (simp add: select_transport_def TransportLayer_index_undefined_def TransportLayer_def
      object_prototype_keys_def STDIO_def)


text \<open>
  The same happens for each of the four enum values, while the member names pass the
  test and are kept as they are. As no value that survives the selection equals
  \<^verbatim>\<open>"tcp"\<close>, \<^verbatim>\<open>"tcp-random"\<close> or \<^verbatim>\<open>"tcp-attach"\<close>, the closure that builds the server
  options never returns a launch connector.
\<close>

lemma enum_value_index_undefined:
  "TransportLayer_index_undefined (JStr STDIO)"
  "TransportLayer_index_undefined (JStr TCP)"
  "TransportLayer_index_undefined (JStr TCP_RANDOM)"
  "TransportLayer_index_undefined (JStr TCP_ATTACH)"
  by (simp_all add: TransportLayer_index_undefined_def TransportLayer_def object_prototype_keys_def
      STDIO_def TCP_def TCP_RANDOM_def TCP_ATTACH_def)

lemma enum_values_index_undefined:
  "v \<in> {STDIO, TCP, TCP_RANDOM, TCP_ATTACH} \<Longrightarrow> TransportLayer_index_undefined (JStr v)"
  using enum_value_index_undefined by blast

lemma select_transport_enum_values:
  "v \<in> {STDIO, TCP, TCP_RANDOM, TCP_ATTACH} \<Longrightarrow>
     fst (select_transport (JStr v)) = JStr STDIO
     \<and> config_writes (snd (select_transport (JStr v))) = [(''languageServer.transport'', JStr STDIO)]"
  using enum_values_index_undefined [of v]
  by (simp add: select_transport_def config_writes_def)

lemma select_transport_member_names:
  "select_transport (JStr ''STDIO'') = (JStr ''STDIO'', [])"
  "select_transport (JStr ''TCP'') = (JStr ''TCP'', [])"
  "select_transport (JStr ''TCP_RANDOM'') = (JStr ''TCP_RANDOM'', [])"
  "select_transport (JStr ''TCP_ATTACH'') = (JStr ''TCP_ATTACH'', [])"
  by (simp_all add: select_transport_def TransportLayer_index_undefined_def TransportLayer_def)

lemma js_loose_eq_strD: "js_loose_eq_str v t \<Longrightarrow> v = JStr t"
  by (cases v) simp_all

lemma selected_transport_not_tcp:
  assumes "t \<in> {TCP, TCP_RANDOM, TCP_ATTACH}"
  shows "\<not> js_loose_eq_str (fst (select_transport v)) t"
proof (cases "TransportLayer_index_undefined v")
  case True
  then have "fst (select_transport v) = JStr STDIO" by (simp add: select_transport_def)
  moreover have "STDIO \<noteq> TCP" "STDIO \<noteq> TCP_RANDOM" "STDIO \<noteq> TCP_ATTACH"
    by (simp_all add: STDIO_def TCP_def TCP_RANDOM_def TCP_ATTACH_def)
  ultimately show ?thesis using assms by auto
next
  case False
  then have f: "fst (select_transport v) = v" by (simp add: select_transport_def)
  show ?thesis
  proof
    assume "js_loose_eq_str (fst (select_transport v)) t"
    with f have "v = JStr t" by (simp add: js_loose_eq_strD)
    moreover from assms have "TransportLayer_index_undefined (JStr t)"
      by (intro enum_values_index_undefined) blast
    ultimately show False using False by simp
  qed
qed


lemma connect_via_not_launch:
  assumes "\<not> js_loose_eq_str t TCP" and "\<not> js_loose_eq_str t TCP_RANDOM"
  shows "snd (connect_via p h t) \<noteq> SOLaunch path tp"
  using assms by (simp add: connect_via_def)

lemma serverOptions_never_launch:
  "snd (serverOptions p h) \<noteq> Inr (SOLaunch path tp)"
proof -
  let ?t = "fst (select_transport (cfg_languageServer_transport p))"
  have "\<not> js_loose_eq_str ?t TCP" and "\<not> js_loose_eq_str ?t TCP_RANDOM"
    by (simp_all add: selected_transport_not_tcp)
  then have c: "snd (connect_via p h ?t) \<noteq> SOLaunch path tp"
    by (rule connect_via_not_launch)
  show ?thesis
  proof (cases "\<not> js_loose_eq_str ?t TCP_ATTACH \<and> isOSUnixoid h")
    case False
    with c show ?thesis
      by (auto simp: serverOptions_def split_beta Let_def)
  next
    case True
    show ?thesis
    proof (cases "script_mode h")
      case (Inl err)
      with True show ?thesis by (simp add: serverOptions_def split_beta Let_def)
    next
      case (Inr mode)
      show ?thesis
      proof (cases "chmod_error h")
        case None
        with True Inr c show ?thesis by (simp add: serverOptions_def split_beta Let_def)
      next
        case (Some err)
        with True Inr show ?thesis by (simp add: serverOptions_def split_beta Let_def)
      qed
    qed
  qed
qed


section \<open>The stdio connector\<close>

text \<open>
  C7. With debugging enabled the environment of the stdio descriptor holds
  \<^verbatim>\<open>KOTLIN_LANGUAGE_SERVER_OPTS\<close>, whose value contains the configured port as the
  JDWP address and \<^verbatim>\<open>suspend=y\<close> when \<open>auto_suspend\<close> is set, \<^verbatim>\<open>suspend=n\<close> otherwise;
  with debugging disabled the connector leaves the environment as it received it.
\<close>

theorem stdio_launch_debug_opts:
  "(is_enabled cfg \<longrightarrow>
      env (stdio_launch ws path env0 cfg) ''KOTLIN_LANGUAGE_SERVER_OPTS'' =
        Some (''-Xdebug -agentlib:jdwp=transport=dt_socket,address=''
              @ js_number_to_string (port cfg) @ '',server=y,quiet=y,suspend=''
              @ (if auto_suspend cfg then ''y'' else ''n''))
      \<and> sublist (''address='' @ js_number_to_string (port cfg) @ '','')
           (the (env (stdio_launch ws path env0 cfg) ''KOTLIN_LANGUAGE_SERVER_OPTS''))
      \<and> sublist (''suspend='' @ (if auto_suspend cfg then ''y'' else ''n''))
           (the (env (stdio_launch ws path env0 cfg) ''KOTLIN_LANGUAGE_SERVER_OPTS'')))
   \<and> (\<not> is_enabled cfg \<longrightarrow> env (stdio_launch ws path env0 cfg) = env0)"
proof -
  let ?a = "''-Xdebug -agentlib:jdwp=transport=dt_socket,''"
  let ?b = "''address='' @ js_number_to_string (port cfg) @ '',''"
  let ?c = "''server=y,quiet=y,''"
  let ?d = "''suspend='' @ (if auto_suspend cfg then ''y'' else ''n'')"
  let ?v = "''-Xdebug -agentlib:jdwp=transport=dt_socket,address=''
              @ js_number_to_string (port cfg) @ '',server=y,quiet=y,suspend=''
              @ (if auto_suspend cfg then ''y'' else ''n'')"
  have v: "?v = ?a @ ?b @ ?c @ ?d" by simp
  have sb: "sublist ?b ?v" unfolding v by (rule sublist_appendI)
  have "?v = (?a @ ?b @ ?c) @ ?d @ []" by simp
  then have sd: "sublist ?d ?v" using sublist_appendI [of ?d "?a @ ?b @ ?c" "[]"] by metis
  show ?thesis using sb sd by (simp add: stdio_launch_def)
qed

theorem stdio_launch_debug_opts_witness:
  "env (stdio_launch None ''/srv/kls'' Map.empty
         \<lparr>is_enabled = True, auto_suspend = True, port = 5005\<rparr>) ''KOTLIN_LANGUAGE_SERVER_OPTS''
     = Some ''-Xdebug -agentlib:jdwp=transport=dt_socket,address=5005,server=y,quiet=y,suspend=y''
   \<and> sublist ''suspend=y''
        (the (env (stdio_launch None ''/srv/kls'' Map.empty
                \<lparr>is_enabled = True, auto_suspend = True, port = 5005\<rparr>)
              ''KOTLIN_LANGUAGE_SERVER_OPTS''))
   \<and> env (stdio_launch None ''/srv/kls'' Map.empty
         \<lparr>is_enabled = False, auto_suspend = True, port = 5005\<rparr>) = Map.empty"
proof -
  have n: "js_number_to_string 5005 = ''5005''"
    by (simp add: js_number_to_string_def nat_to_string.simps digit_char_def)
  have on: "is_enabled \<lparr>is_enabled = True, auto_suspend = True, port = 5005\<rparr>"
    and off: "\<not> is_enabled \<lparr>is_enabled = False, auto_suspend = True, port = 5005\<rparr>"
    by simp_all
  from on stdio_launch_debug_opts
      [of "\<lparr>is_enabled = True, auto_suspend = True, port = 5005\<rparr>" None "''/srv/kls''" Map.empty]
  have a: "env (stdio_launch None ''/srv/kls'' Map.empty
         \<lparr>is_enabled = True, auto_suspend = True, port = 5005\<rparr>) ''KOTLIN_LANGUAGE_SERVER_OPTS''
     = Some ''-Xdebug -agentlib:jdwp=transport=dt_socket,address=5005,server=y,quiet=y,suspend=y''"
    and b: "sublist ''suspend=y''
        (the (env (stdio_launch None ''/srv/kls'' Map.empty
                \<lparr>is_enabled = True, auto_suspend = True, port = 5005\<rparr>)
              ''KOTLIN_LANGUAGE_SERVER_OPTS''))"
    by (auto simp: n)
  from off stdio_launch_debug_opts
      [of "\<lparr>is_enabled = False, auto_suspend = True, port = 5005\<rparr>" None "''/srv/kls''" Map.empty]
  have c: "env (stdio_launch None ''/srv/kls'' Map.empty
         \<lparr>is_enabled = False, auto_suspend = True, port = 5005\<rparr>) = Map.empty"
    by simp
  from a b c show ?thesis by blast
qed


section \<open>The TCP launch connector\<close>

subsection \<open>Rendering of port numbers\<close>

lemma nat_to_string_nonempty: "nat_to_string n \<noteq> []"
  by (subst nat_to_string.simps) simp

lemma digit_char_inj: "a < 10 \<Longrightarrow> b < 10 \<Longrightarrow> digit_char a = digit_char b \<Longrightarrow> a = b"
proof -
  assume a: "a < 10" and b: "b < 10" and e: "digit_char a = digit_char b"
  have d: "distinct ''0123456789''" by simp
  have l: "length ''0123456789'' = 10" by simp
  from e have "''0123456789'' ! a = ''0123456789'' ! b" by (simp only: digit_char_def)
  with d a b l show "a = b" by (simp only: nth_eq_iff_index_eq)
qed

lemma nat_to_string_inj: "nat_to_string n = nat_to_string m \<Longrightarrow> n = m"
proof (induction n arbitrary: m rule: nat_to_string.induct)
  case (1 n)
  show ?case
  proof (cases "n < 10")
    case n: True
    show ?thesis
    proof (cases "m < 10")
      case True
      with n "1.prems" show ?thesis
        by (subst (asm) (1 2) nat_to_string.simps) (simp add: digit_char_inj)
    next
      case False
      with n "1.prems" nat_to_string_nonempty [of "m div 10"] show ?thesis
        by (subst (asm) (1 2) nat_to_string.simps) simp
    qed
  next
    case n: False
    show ?thesis
    proof (cases "m < 10")
      case True
      with n "1.prems" nat_to_string_nonempty [of "n div 10"] show ?thesis
        by (subst (asm) (1 2) nat_to_string.simps) simp
    next
      case False
      with n "1.prems" have eq: "nat_to_string (n div 10) = nat_to_string (m div 10)"
        and d: "digit_char (n mod 10) = digit_char (m mod 10)"
        by (subst (asm) (1 2) nat_to_string.simps, simp)+
      from "1.IH" [OF n eq] have "n div 10 = m div 10" .
      moreover from d have "n mod 10 = m mod 10" by (intro digit_char_inj) simp_all
      ultimately show ?thesis by (metis div_mult_mod_eq)
    qed
  qed
qed

lemma not_binding_step:
  "ls_server st \<noteq> Binding \<Longrightarrow>
     ls_server (launch_step path st ev) \<noteq> Binding
     \<and> ls_spawned (launch_step path st ev) = ls_spawned st"
  by (cases ev; cases "ls_server st") auto

lemma not_binding_foldl:
  "ls_server st \<noteq> Binding \<Longrightarrow> ls_spawned (foldl (launch_step path) st evs) = ls_spawned st"
proof (induction evs arbitrary: st)
  case Nil
  then show ?case by simp
next
  case (Cons ev evs)
  from not_binding_step [OF Cons.prems, of path ev] Cons.IH [of "launch_step path st ev"]
  show ?case by simp
qed

lemma binding_foldl:
  "ls_server st = Binding \<Longrightarrow> ls_spawned st = [] \<Longrightarrow>
     ls_spawned (foldl (launch_step path) st evs) =
       (case bound_port evs of
          None \<Rightarrow> []
        | Some b \<Rightarrow> [\<lparr>sp_command = path, sp_args = [''--tcpClientPort'', nat_to_string b],
                       sp_env = None\<rparr>])"
proof (induction evs arbitrary: st)
  case Nil
  then show ?case by simp
next
  case (Cons ev evs)
  show ?case
  proof (cases ev)
    case (EvListening b)
    with Cons.prems not_binding_foldl [of "launch_step path st ev" path evs]
    show ?thesis by simp
  next
    case (EvConnection s)
    with Cons.prems Cons.IH [of "launch_step path st ev"] show ?thesis by simp
  next
    case (EvError e)
    with Cons.prems Cons.IH [of "launch_step path st ev"] show ?thesis by simp
  next
    case (EvProcData d)
    with Cons.prems Cons.IH [of "launch_step path st ev"] show ?thesis by simp
  next
    case (EvProcExit c s)
    with Cons.prems Cons.IH [of "launch_step path st ev"] show ?thesis by simp
  qed
qed


subsection \<open>Spawning\<close>

text \<open>
  C4. Whatever the requested port and whatever events arrive, nothing is spawned before
  the listener has become ready; once it has, exactly one process has been spawned,
  with the single argument pair \<^verbatim>\<open>--tcpClientPort\<close> and the decimal rendering of the port
  the listener reported as bound. The argument is the rendering of no other port, so
  not of the requested one when that differs (a requested \<open>0\<close> or \<^verbatim>\<open>null\<close>).
\<close>

theorem tcp_launch_spawn_port:
  "(case bound_port evs of
      None \<Rightarrow> ls_spawned (launch_run path tp evs) = []
    | Some b \<Rightarrow>
        ls_spawned (launch_run path tp evs) =
          [\<lparr>sp_command = path, sp_args = [''--tcpClientPort'', nat_to_string b], sp_env = None\<rparr>]
        \<and> (\<forall>r. r \<noteq> b \<longrightarrow>
              sp_args (hd (ls_spawned (launch_run path tp evs)))
                \<noteq> [''--tcpClientPort'', nat_to_string r]))"
proof -
  have "ls_spawned (launch_run path tp evs) =
       (case bound_port evs of
          None \<Rightarrow> []
        | Some b \<Rightarrow> [\<lparr>sp_command = path, sp_args = [''--tcpClientPort'', nat_to_string b],
                       sp_env = None\<rparr>])"
    unfolding launch_run_def by (rule binding_foldl) (simp_all add: tcp_launch_def)
  then show ?thesis
    by (cases "bound_port evs") (auto dest: nat_to_string_inj)
qed

theorem tcp_launch_spawn_port_witness:
  "ls_spawned (launch_run ''/srv/kls'' (Some 0) [EvListening 40123]) =
     [\<lparr>sp_command = ''/srv/kls'', sp_args = [''--tcpClientPort'', ''40123''], sp_env = None\<rparr>]
   \<and> sp_args (hd (ls_spawned (launch_run ''/srv/kls'' (Some 0) [EvListening 40123])))
       \<noteq> [''--tcpClientPort'', ''0'']
   \<and> ls_spawned (launch_run ''/srv/kls'' (Some 0) [EvConnection 3]) = []"
proof -
  have n: "nat_to_string 40123 = ''40123''"
    by (simp add: nat_to_string.simps digit_char_def)
  have n0: "nat_to_string 0 = ''0''"
    by (simp add: nat_to_string.simps digit_char_def)
  have z: "(0::nat) \<noteq> 40123" by simp
  note t = tcp_launch_spawn_port
    [where evs = "[EvListening 40123]" and path = "''/srv/kls''" and tp = "Some 0",
     simplified bound_port.simps option.case]
  have a: "ls_spawned (launch_run ''/srv/kls'' (Some 0) [EvListening 40123]) =
     [\<lparr>sp_command = ''/srv/kls'', sp_args = [''--tcpClientPort'', ''40123''], sp_env = None\<rparr>]"
    using t [THEN conjunct1] unfolding n .
  have b: "sp_args (hd (ls_spawned (launch_run ''/srv/kls'' (Some 0) [EvListening 40123])))
       \<noteq> [''--tcpClientPort'', ''0'']"
    using t [THEN conjunct2, rule_format, OF z] unfolding n0 .
  note u = tcp_launch_spawn_port
    [where evs = "[EvConnection 3]" and path = "''/srv/kls''" and tp = "Some 0",
     simplified bound_port.simps option.case]
  from a b u show ?thesis by blast
qed


subsection \<open>Accepting a connection\<close>

lemma launch_run_snoc:
  "launch_run path tp (evs @ [ev]) = launch_step path (launch_run path tp evs) ev"
  by (simp add: launch_run_def)

lemma launch_run_append:
  "launch_run path tp (evs @ later) = foldl (launch_step path) (launch_run path tp evs) later"
  by (simp add: launch_run_def)

lemma launch_inv_init: "launch_inv (tcp_launch path tp)"
  by (simp add: launch_inv_def tcp_launch_def)

lemma launch_inv_step: "launch_inv st \<Longrightarrow> launch_inv (launch_step path st ev)"
  by (cases ev; cases "ls_server st"; cases "ls_promise st")
     (auto simp: launch_inv_def)

lemma launch_inv_run: "launch_inv (launch_run path tp evs)"
  by (induction evs rule: rev_induct)
     (simp_all add: launch_run_snoc launch_inv_step, simp add: launch_run_def launch_inv_init)

lemma rejected_origin:
  "ls_promise (launch_run path tp evs) = Rejected e \<Longrightarrow> EvError e \<in> set evs"
proof (induction evs rule: rev_induct)
  case Nil
  then show ?case by (simp add: launch_run_def tcp_launch_def)
next
  case (snoc ev evs)
  then show ?case
    by (cases ev; cases "ls_server (launch_run path tp evs)";
        cases "ls_promise (launch_run path tp evs)")
       (auto simp: launch_run_snoc split: if_splits)
qed

lemma closed_step:
  "ls_server st = Closed \<Longrightarrow>
     ls_server (launch_step path st ev) = Closed
     \<and> ls_accepted (launch_step path st ev) = ls_accepted st
     \<and> ls_refused (launch_step path st ev) = ls_refused st @ connections [ev]"
  by (cases ev) (auto simp: connections_def)

lemma connections_Cons: "connections (ev # evs) = connections [ev] @ connections evs"
  by (simp add: connections_def)

lemma closed_foldl:
  "ls_server st = Closed \<Longrightarrow>
     ls_server (foldl (launch_step path) st evs) = Closed
     \<and> ls_accepted (foldl (launch_step path) st evs) = ls_accepted st
     \<and> ls_refused (foldl (launch_step path) st evs) = ls_refused st @ connections evs"
proof (induction evs arbitrary: st)
  case Nil
  then show ?case by (simp add: connections_def)
next
  case (Cons ev evs)
  from closed_step [OF Cons.prems, of path ev] Cons.IH [of "launch_step path st ev"]
  show ?case by (simp add: connections_Cons [of ev evs])
qed

lemma settled_step:
  "ls_promise st \<noteq> Pending \<Longrightarrow> ls_promise (launch_step path st ev) = ls_promise st"
  by (cases ev; cases "ls_server st"; cases "ls_promise st") auto

lemma settled_foldl:
  "ls_promise st \<noteq> Pending \<Longrightarrow> ls_promise (foldl (launch_step path) st evs) = ls_promise st"
  by (induction evs arbitrary: st) (simp_all add: settled_step)


lemma tcp_launch_accept_facts:
  "length (ls_accepted (launch_run path tp evs)) \<le> 1
   \<and> (\<forall>s. ls_accepted (launch_run path tp evs) = [s] \<longrightarrow>
         ls_server (launch_run path tp evs) = Closed
         \<and> (ls_promise (launch_run path tp evs) = Resolved \<lparr>reader = s, writer = s\<rparr>
            \<or> (\<exists>e. ls_promise (launch_run path tp evs) = Rejected e \<and> EvError e \<in> set evs))
         \<and> (\<forall>later.
               ls_accepted (launch_run path tp (evs @ later)) = [s]
               \<and> ls_promise (launch_run path tp (evs @ later)) = ls_promise (launch_run path tp evs)
               \<and> ls_refused (launch_run path tp (evs @ later))
                   = ls_refused (launch_run path tp evs) @ connections later))
   \<and> (\<forall>x. ls_promise (launch_run path tp evs) = Resolved x \<longrightarrow>
         ls_accepted (launch_run path tp evs) = [reader x] \<and> writer x = reader x)"
proof -
  let ?st = "launch_run path tp evs"
  have inv: "launch_inv ?st" by (rule launch_inv_run)
  have len: "length (ls_accepted ?st) \<le> 1" using inv by (simp add: launch_inv_def)
  have acc: "ls_server ?st = Closed
         \<and> (ls_promise ?st = Resolved \<lparr>reader = s, writer = s\<rparr>
            \<or> (\<exists>e. ls_promise ?st = Rejected e \<and> EvError e \<in> set evs))
         \<and> (\<forall>later.
               ls_accepted (launch_run path tp (evs @ later)) = [s]
               \<and> ls_promise (launch_run path tp (evs @ later)) = ls_promise ?st
               \<and> ls_refused (launch_run path tp (evs @ later)) = ls_refused ?st @ connections later)"
    if a: "ls_accepted ?st = [s]" for s
  proof -
    from inv a have c: "ls_server ?st = Closed" by (auto simp: launch_inv_def)
    from inv a have p: "ls_promise ?st = Resolved \<lparr>reader = s, writer = s\<rparr>
        \<or> (\<exists>e. ls_promise ?st = Rejected e)" by (simp add: launch_inv_def)
    then have p': "ls_promise ?st = Resolved \<lparr>reader = s, writer = s\<rparr>
        \<or> (\<exists>e. ls_promise ?st = Rejected e \<and> EvError e \<in> set evs)"
      using rejected_origin [of path tp evs] by blast
    from p have np: "ls_promise ?st \<noteq> Pending" by auto
    show ?thesis
      using c p' a closed_foldl [OF c, of path] settled_foldl [OF np, of path]
      by (simp add: launch_run_append)
  qed
  have res: "ls_accepted ?st = [reader x] \<and> writer x = reader x"
    if r: "ls_promise ?st = Resolved x" for x
  proof (cases "ls_accepted ?st")
    case Nil
    with inv r show ?thesis by (simp add: launch_inv_def)
  next
    case (Cons s ss)
    with len have a: "ls_accepted ?st = [s]" by simp
    with inv r have "x = \<lparr>reader = s, writer = s\<rparr>" by (auto simp: launch_inv_def)
    with a show ?thesis by simp
  qed
  from len acc res show ?thesis by blast
qed

lemma connections_Nil [simp]: "connections [] = []"
  by (simp add: connections_def)

lemma connections_simps:
  "connections (EvConnection s # evs) = s # connections evs"
  "connections (EvListening b # evs) = connections evs"
  "connections (EvError e # evs) = connections evs"
  "connections (EvProcData d # evs) = connections evs"
  "connections (EvProcExit c g # evs) = connections evs"
  by (simp_all add: connections_def)

lemma listening_foldl:
  "ls_server st = Listening b \<Longrightarrow>
     ls_accepted (foldl (launch_step path) st evs) = ls_accepted st @ take 1 (connections evs)
     \<and> ls_server (foldl (launch_step path) st evs)
         = (if connections evs = [] then Listening b else Closed)
     \<and> ls_refused (foldl (launch_step path) st evs) = ls_refused st @ drop 1 (connections evs)"
proof (induction evs arbitrary: st)
  case Nil
  then show ?case by simp
next
  case (Cons ev evs)
  show ?case
  proof (cases ev)
    case (EvConnection s)
    with Cons.prems have c: "ls_server (launch_step path st ev) = Closed"
      and a: "ls_accepted (launch_step path st ev) = ls_accepted st @ [s]"
      and r: "ls_refused (launch_step path st ev) = ls_refused st"
      by simp_all
    from closed_foldl [OF c, of path evs] a r EvConnection show ?thesis
      by (simp add: connections_simps)
  next
    case (EvListening b')
    with Cons.prems Cons.IH [of "launch_step path st ev"] show ?thesis
      by (simp add: connections_simps)
  next
    case (EvError e)
    with Cons.prems Cons.IH [of "launch_step path st ev"] show ?thesis
      by (simp add: connections_simps)
  next
    case (EvProcData d)
    with Cons.prems Cons.IH [of "launch_step path st ev"] show ?thesis
      by (simp add: connections_simps)
  next
    case (EvProcExit c g)
    with Cons.prems Cons.IH [of "launch_step path st ev"] show ?thesis
      by (simp add: connections_simps)
  qed
qed

lemma binding_server_foldl:
  "ls_server st = Binding \<Longrightarrow>
     (case after_listening evs of
        None \<Rightarrow>
          ls_accepted (foldl (launch_step path) st evs) = ls_accepted st
          \<and> ls_server (foldl (launch_step path) st evs) = Binding
          \<and> ls_refused (foldl (launch_step path) st evs) = ls_refused st @ connections evs
      | Some (b, rest) \<Rightarrow>
          ls_accepted (foldl (launch_step path) st evs) = ls_accepted st @ take 1 (connections rest)
          \<and> ls_server (foldl (launch_step path) st evs)
              = (if connections rest = [] then Listening b else Closed)
          \<and> ls_refused (foldl (launch_step path) st evs)
              = ls_refused st @ connections (takeWhile (\<lambda>ev. \<not> is_listening ev) evs)
                @ drop 1 (connections rest))"
proof (induction evs arbitrary: st)
  case Nil
  then show ?case by simp
next
  case (Cons ev evs)
  show ?case
  proof (cases ev)
    case (EvListening b)
    with Cons.prems have l: "ls_server (launch_step path st ev) = Listening b"
      and a: "ls_accepted (launch_step path st ev) = ls_accepted st"
      and r: "ls_refused (launch_step path st ev) = ls_refused st"
      by simp_all
    from listening_foldl [OF l, of path evs] a r EvListening show ?thesis by simp
  next
    case (EvConnection s)
    with Cons.prems have l: "ls_server (launch_step path st ev) = Binding"
      and a: "ls_accepted (launch_step path st ev) = ls_accepted st"
      and r: "ls_refused (launch_step path st ev) = ls_refused st @ [s]"
      by simp_all
    from Cons.IH [OF l] a r EvConnection show ?thesis
      by (cases "after_listening evs") (auto simp: connections_simps)
  next
    case (EvError e)
    with Cons.prems have l: "ls_server (launch_step path st ev) = Binding"
      and a: "ls_accepted (launch_step path st ev) = ls_accepted st"
      and r: "ls_refused (launch_step path st ev) = ls_refused st"
      by simp_all
    from Cons.IH [OF l] a r EvError show ?thesis
      by (cases "after_listening evs") (auto simp: connections_simps)
  next
    case (EvProcData d)
    with Cons.prems have l: "ls_server (launch_step path st ev) = Binding"
      and a: "ls_accepted (launch_step path st ev) = ls_accepted st"
      and r: "ls_refused (launch_step path st ev) = ls_refused st"
      by simp_all
    from Cons.IH [OF l] a r EvProcData show ?thesis
      by (cases "after_listening evs") (auto simp: connections_simps)
  next
    case (EvProcExit c g)
    with Cons.prems have l: "ls_server (launch_step path st ev) = Binding"
      and a: "ls_accepted (launch_step path st ev) = ls_accepted st"
      and r: "ls_refused (launch_step path st ev) = ls_refused st"
      by simp_all
    from Cons.IH [OF l] a r EvProcExit show ?thesis
      by (cases "after_listening evs") (auto simp: connections_simps)
  qed
qed

lemma first_error_append:
  "first_error (xs @ ys) = (case first_error xs of None \<Rightarrow> first_error ys | Some e \<Rightarrow> Some e)"
  by (induction xs rule: first_error.induct) simp_all

lemma accepted_step_Nil:
  "ls_accepted (launch_step path st ev) = [] \<Longrightarrow> ls_accepted st = []"
  by (cases ev; cases "ls_server st") (auto split: if_splits)

lemma promise_without_accept:
  "ls_accepted (launch_run path tp evs) = [] \<Longrightarrow>
     ls_promise (launch_run path tp evs)
       = (case first_error evs of None \<Rightarrow> Pending | Some e \<Rightarrow> Rejected e)"
proof (induction evs rule: rev_induct)
  case Nil
  show ?case by (simp add: launch_run_def tcp_launch_def)
next
  case (snoc ev evs)
  let ?st = "launch_run path tp evs"
  from snoc.prems have "ls_accepted (launch_step path ?st ev) = []"
    by (simp only: launch_run_snoc)
  then have a: "ls_accepted ?st = []" by (rule accepted_step_Nil)
  with snoc.IH have p: "ls_promise ?st
       = (case first_error evs of None \<Rightarrow> Pending | Some e \<Rightarrow> Rejected e)" by simp
  show ?case
  proof (cases ev)
    case (EvConnection s)
    with snoc.prems have "\<forall>b. ls_server ?st \<noteq> Listening b"
      by (cases "ls_server ?st") (simp_all add: launch_run_snoc)
    with EvConnection have "ls_promise (launch_step path ?st ev) = ls_promise ?st"
      by (cases "ls_server ?st") simp_all
    with p EvConnection show ?thesis
      by (simp add: launch_run_snoc first_error_append split: option.splits)
  next
    case (EvError e)
    with p show ?thesis
      by (simp add: launch_run_snoc first_error_append split: option.splits)
  next
    case (EvListening b)
    with p show ?thesis
      by (cases "ls_server ?st")
         (simp_all add: launch_run_snoc first_error_append split: option.splits)
  next
    case (EvProcData d)
    with p show ?thesis
      by (simp add: launch_run_snoc first_error_append split: option.splits)
  next
    case (EvProcExit c g)
    with p show ?thesis
      by (simp add: launch_run_snoc first_error_append split: option.splits)
  qed
qed

text \<open>
  C3, as amended. The state of the listener follows from the events alone. Until the
  listener is ready no connection is accepted and every attempt is refused. From then
  on the first connection attempt is accepted and closes the server, and every later
  attempt is refused, so at most one connection is ever accepted. The connection that
  reaches the listening server resolves the promise with its socket as reader and
  writer, unless an error emitted by the listener before that connection had already
  rejected it; either way nothing changes the promise afterwards. While no connection
  has been accepted the promise is pending, or rejected with the first error. A
  resolved promise always carries the accepted socket in both roles.
\<close>

theorem tcp_launch_first_connection:
  "(case after_listening evs of
      None \<Rightarrow>
        ls_accepted (launch_run path tp evs) = []
        \<and> ls_server (launch_run path tp evs) = Binding
        \<and> ls_refused (launch_run path tp evs) = connections evs
    | Some (b, rest) \<Rightarrow>
        ls_accepted (launch_run path tp evs) = take 1 (connections rest)
        \<and> ls_server (launch_run path tp evs)
            = (if connections rest = [] then Listening b else Closed)
        \<and> ls_refused (launch_run path tp evs)
            = connections (takeWhile (\<lambda>ev. \<not> is_listening ev) evs) @ drop 1 (connections rest))
   \<and> (ls_accepted (launch_run path tp evs) = [] \<longrightarrow>
        ls_promise (launch_run path tp evs)
          = (case first_error evs of None \<Rightarrow> Pending | Some e \<Rightarrow> Rejected e))
   \<and> (\<forall>b s later. ls_server (launch_run path tp evs) = Listening b \<longrightarrow>
        ls_accepted (launch_run path tp (evs @ EvConnection s # later)) = [s]
        \<and> ls_server (launch_run path tp (evs @ EvConnection s # later)) = Closed
        \<and> ls_refused (launch_run path tp (evs @ EvConnection s # later))
            = ls_refused (launch_run path tp evs) @ connections later
        \<and> ls_promise (launch_run path tp (evs @ EvConnection s # later))
            = (case first_error evs of
                 None \<Rightarrow> Resolved \<lparr>reader = s, writer = s\<rparr>
               | Some e \<Rightarrow> Rejected e))
   \<and> length (ls_accepted (launch_run path tp evs)) \<le> 1
   \<and> (\<forall>s. ls_accepted (launch_run path tp evs) = [s] \<longrightarrow>
         ls_server (launch_run path tp evs) = Closed
         \<and> (ls_promise (launch_run path tp evs) = Resolved \<lparr>reader = s, writer = s\<rparr>
            \<or> (\<exists>e. ls_promise (launch_run path tp evs) = Rejected e \<and> EvError e \<in> set evs))
         \<and> (\<forall>later.
               ls_accepted (launch_run path tp (evs @ later)) = [s]
               \<and> ls_promise (launch_run path tp (evs @ later)) = ls_promise (launch_run path tp evs)
               \<and> ls_refused (launch_run path tp (evs @ later))
                   = ls_refused (launch_run path tp evs) @ connections later))
   \<and> (\<forall>x. ls_promise (launch_run path tp evs) = Resolved x \<longrightarrow>
         ls_accepted (launch_run path tp evs) = [reader x] \<and> writer x = reader x)"
proof -
  let ?R = "launch_run path tp evs"
  have init: "ls_server (tcp_launch path tp) = Binding"
    "ls_accepted (tcp_launch path tp) = []" "ls_refused (tcp_launch path tp) = []"
    by (simp_all add: tcp_launch_def)
  have trace: "(case after_listening evs of
      None \<Rightarrow>
        ls_accepted ?R = [] \<and> ls_server ?R = Binding \<and> ls_refused ?R = connections evs
    | Some (b, rest) \<Rightarrow>
        ls_accepted ?R = take 1 (connections rest)
        \<and> ls_server ?R = (if connections rest = [] then Listening b else Closed)
        \<and> ls_refused ?R
            = connections (takeWhile (\<lambda>ev. \<not> is_listening ev) evs) @ drop 1 (connections rest))"
    using binding_server_foldl [OF init(1), where evs = evs and path = path] init(2,3)
    unfolding launch_run_def by (auto split: option.splits prod.splits)
  have pend: "ls_accepted ?R = [] \<longrightarrow>
        ls_promise ?R = (case first_error evs of None \<Rightarrow> Pending | Some e \<Rightarrow> Rejected e)"
    using promise_without_accept [where path = path and tp = tp and evs = evs] by blast
  have acc: "ls_accepted (launch_run path tp (evs @ EvConnection s # later)) = [s]
        \<and> ls_server (launch_run path tp (evs @ EvConnection s # later)) = Closed
        \<and> ls_refused (launch_run path tp (evs @ EvConnection s # later))
            = ls_refused ?R @ connections later
        \<and> ls_promise (launch_run path tp (evs @ EvConnection s # later))
            = (case first_error evs of
                 None \<Rightarrow> Resolved \<lparr>reader = s, writer = s\<rparr>
               | Some e \<Rightarrow> Rejected e)"
    if l: "ls_server ?R = Listening b" for b s later
  proof -
    let ?S = "launch_step path ?R (EvConnection s)"
    have inv: "launch_inv ?R" by (rule launch_inv_run)
    with l have a: "ls_accepted ?R = []" by (simp add: launch_inv_def)
    with pend have p: "ls_promise ?R
        = (case first_error evs of None \<Rightarrow> Pending | Some e \<Rightarrow> Rejected e)" by simp
    from l a have c: "ls_server ?S = Closed" and a': "ls_accepted ?S = [s]"
      and r': "ls_refused ?S = ls_refused ?R"
      and p': "ls_promise ?S = resolve \<lparr>reader = s, writer = s\<rparr> (ls_promise ?R)"
      by simp_all
    from p p' have q: "ls_promise ?S = (case first_error evs of
                 None \<Rightarrow> Resolved \<lparr>reader = s, writer = s\<rparr>
               | Some e \<Rightarrow> Rejected e)"
      by (simp split: option.splits)
    then have np: "ls_promise ?S \<noteq> Pending" by (simp split: option.splits)
    have run: "launch_run path tp (evs @ EvConnection s # later)
        = foldl (launch_step path) ?S later"
      by (simp add: launch_run_def)
    from closed_foldl [OF c, where path = path and evs = later]
      settled_foldl [OF np, where path = path and evs = later] a' r' q
    show ?thesis unfolding run by simp
  qed
  note old = tcp_launch_accept_facts [where path = path and tp = tp and evs = evs]
  from trace pend acc old show ?thesis by blast
qed

theorem tcp_launch_first_connection_witness:
  "ls_server (launch_run ''/kls'' None [EvConnection 5, EvListening 40000, EvProcData ''up''])
     = Listening 40000
   \<and> ls_accepted (launch_run ''/kls'' None
         ([EvConnection 5, EvListening 40000, EvProcData ''up''] @ EvConnection 7 # [EvConnection 8]))
       = [7]
   \<and> ls_server (launch_run ''/kls'' None
         ([EvConnection 5, EvListening 40000, EvProcData ''up''] @ EvConnection 7 # [EvConnection 8]))
       = Closed
   \<and> ls_refused (launch_run ''/kls'' None
         ([EvConnection 5, EvListening 40000, EvProcData ''up''] @ EvConnection 7 # [EvConnection 8]))
       = [5, 8]
   \<and> ls_promise (launch_run ''/kls'' None
         ([EvConnection 5, EvListening 40000, EvProcData ''up''] @ EvConnection 7 # [EvConnection 8]))
       = Resolved \<lparr>reader = 7, writer = 7\<rparr>"
proof -
  let ?evs = "[EvConnection 5, EvListening 40000, EvProcData ''up'']"
  have l: "ls_server (launch_run ''/kls'' None ?evs) = Listening 40000"
    by (simp add: launch_run_def tcp_launch_def)
  have r: "ls_refused (launch_run ''/kls'' None ?evs) = [5]"
    by (simp add: launch_run_def tcp_launch_def)
  have e: "first_error ?evs = None" by simp
  have c: "connections [EvConnection 8] = [8]" by (simp add: connections_def)
  note t = tcp_launch_first_connection
    [where path = "''/kls''" and tp = None and evs = ?evs,
     THEN conjunct2, THEN conjunct2, THEN conjunct1, rule_format, OF l,
     where s = 7 and later = "[EvConnection 8]"]
  from t l show ?thesis unfolding r e c by simp
qed


text \<open>
  The claim as stated has the promise resolve on the first connection in every
  invocation. An error emitted while the server is listening (a failed accept) rejects
  the promise and leaves the server listening; the connection that follows is accepted
  and closes the server, but the promise stays rejected.
\<close>

theorem tcp_launch_first_connection_counterexample:
  "ls_accepted (launch_run ''/kls'' None [EvListening 40000, EvError ''EMFILE'', EvConnection 7]) = [7]
   \<and> ls_promise (launch_run ''/kls'' None [EvListening 40000, EvError ''EMFILE'', EvConnection 7])
       = Rejected ''EMFILE''"
  by (simp add: launch_run_def tcp_launch_def)


subsection \<open>An error of the listener\<close>

lemma pending_foldl:
  "ls_promise st = Pending \<Longrightarrow> \<forall>ev \<in> set evs. \<not> is_connection ev \<and> \<not> is_error ev \<Longrightarrow>
     ls_promise (foldl (launch_step path) st evs) = Pending"
proof (induction evs arbitrary: st)
  case Nil
  then show ?case by simp
next
  case (Cons ev evs)
  from Cons.prems have "ls_promise (launch_step path st ev) = Pending"
    by (cases ev; cases "ls_server st") auto
  with Cons show ?case by simp
qed

lemma listens_step: "ls_listens (launch_step path st ev) = ls_listens st"
  by (cases ev; cases "ls_server st") auto

lemma listens_foldl: "ls_listens (foldl (launch_step path) st evs) = ls_listens st"
  by (induction evs arbitrary: st) (simp_all add: listens_step)


text \<open>
  C8. When the listener emits an error before any connection has arrived, the promise
  is rejected with that error and stays so whatever happens afterwards, so it never
  resolves; \<^verbatim>\<open>listen\<close> has been called once, with the requested port, and is not called
  again.
\<close>

theorem tcp_launch_listener_error:
  assumes "\<forall>ev \<in> set pre. \<not> is_connection ev \<and> \<not> is_error ev"
  shows "ls_promise (launch_run path tp (pre @ EvError e # post)) = Rejected e
         \<and> ls_listens (launch_run path tp (pre @ EvError e # post)) = [tp]"
proof -
  let ?st = "foldl (launch_step path) (tcp_launch path tp) pre"
  have "ls_promise ?st = Pending"
    using assms by (intro pending_foldl) (simp_all add: tcp_launch_def)
  then have "ls_promise (launch_step path ?st (EvError e)) = Rejected e" by simp
  then have "ls_promise (foldl (launch_step path) (launch_step path ?st (EvError e)) post) = Rejected e"
    using settled_foldl [of "launch_step path ?st (EvError e)" path post] by simp
  moreover have "ls_listens (launch_run path tp (pre @ EvError e # post)) = [tp]"
    by (simp add: launch_run_def listens_foldl tcp_launch_def)
  ultimately show ?thesis by (simp add: launch_run_def)
qed


theorem tcp_launch_listener_error_witness:
  "ls_promise (launch_run ''/srv/kls'' (Some 8080)
       ([EvListening 8080, EvProcData ''starting''] @ EvError ''EMFILE'' # [EvConnection 7]))
     = Rejected ''EMFILE''
   \<and> ls_listens (launch_run ''/srv/kls'' (Some 8080)
       ([EvListening 8080, EvProcData ''starting''] @ EvError ''EMFILE'' # [EvConnection 7]))
     = [Some 8080]"
proof -
  have h: "\<forall>ev \<in> set [EvListening 8080, EvProcData ''starting'']. \<not> is_connection ev \<and> \<not> is_error ev"
    by simp
  from tcp_launch_listener_error [OF h, where path = "''/srv/kls''" and tp = "Some 8080" and e = "''EMFILE''" and post = "[EvConnection 7]"]
  show ?thesis .
qed


section \<open>The TCP attach connector\<close>

subsection \<open>The promises of the channel source\<close>

lemma resolve_not_rejected: "p \<noteq> Rejected e \<Longrightarrow> resolve x p \<noteq> Rejected e"
  by (cases p) simp_all

lemma connection_listener_promises:
  assumes "\<forall>pr \<in> set (as_promises st). \<forall>e. pr \<noteq> Rejected e"
  shows "\<forall>pr \<in> set (as_promises (connection_listener sock st i)). \<forall>e. pr \<noteq> Rejected e"
proof (intro ballI allI)
  fix pr e
  assume m: "pr \<in> set (as_promises (connection_listener sock st i))"
  let ?v = "resolve \<lparr>reader = sock, writer = sock\<rparr> (as_promises st ! i)"
  have eq: "as_promises (connection_listener sock st i) = (as_promises st)[i := ?v]"
    by (simp add: connection_listener_def)
  show "pr \<noteq> Rejected e"
  proof (cases "i < length (as_promises st)")
    case True
    then have "as_promises st ! i \<in> set (as_promises st)" by (rule nth_mem)
    with assms have "as_promises st ! i \<noteq> Rejected e" by simp
    then have v: "?v \<noteq> Rejected e" by (rule resolve_not_rejected)
    from m eq have "pr \<in> set ((as_promises st)[i := ?v])" by simp
    then have "pr \<in> insert ?v (set (as_promises st))"
      using set_update_subset_insert [of "as_promises st" i ?v] by blast
    then have "pr = ?v \<or> pr \<in> set (as_promises st)" by simp
    then show ?thesis
    proof
      assume "pr = ?v"
      with v show ?thesis by simp
    next
      assume "pr \<in> set (as_promises st)"
      with assms show ?thesis by simp
    qed
  next
    case False
    then have "(as_promises st)[i := ?v] = as_promises st" by (intro list_update_beyond) simp
    with m eq have "pr \<in> set (as_promises st)" by simp
    with assms show ?thesis by simp
  qed
qed

lemma connection_listener_emitter:
  "as_emitter (connection_listener sock st i) = as_emitter st"
  by (simp add: connection_listener_def)

lemma connection_listener_inv:
  assumes "attach_inv st"
  shows "attach_inv (connection_listener sock st i)"
proof -
  from assms have p: "\<forall>pr \<in> set (as_promises st). \<forall>e. pr \<noteq> Rejected e"
    and em: "\<forall>r \<in> set (as_emitter st). reg_event r = ''connection''"
    unfolding attach_inv_def by blast+
  from connection_listener_promises [OF p] em show ?thesis
    unfolding attach_inv_def connection_listener_emitter by blast
qed

lemma foldl_connection_listener_inv:
  "attach_inv st \<Longrightarrow> attach_inv (foldl (connection_listener sock) st is)"
  by (induction "is" arbitrary: st) (simp_all add: connection_listener_inv)

lemma remove_first_subset: "set (remove_first name l rs) \<subseteq> set rs"
  by (induction rs) auto

lemma removeListener_subset: "set (removeListener name l em) \<subseteq> set em"
  using remove_first_subset [of name l "rev em"] by (simp add: removeListener_def)

lemma close_handler_inv:
  assumes "attach_inv st"
  shows "attach_inv (close_handler st i)"
proof -
  from assms have p: "\<forall>pr \<in> set (as_promises st). \<forall>e. pr \<noteq> Rejected e"
    and em: "\<forall>r \<in> set (as_emitter st). reg_event r = ''connection''"
    unfolding attach_inv_def by blast+
  have a: "as_promises (close_handler st i) = as_promises st"
    and b: "as_emitter (close_handler st i) = removeListener ''connect'' i (as_emitter st)"
    by (simp_all add: close_handler_def)
  from em removeListener_subset [of "''connect''" i "as_emitter st"]
  have "\<forall>r \<in> set (removeListener ''connect'' i (as_emitter st)). reg_event r = ''connection''"
    by blast
  with p show ?thesis unfolding attach_inv_def a b by blast
qed

lemma foldl_close_handler_inv:
  "attach_inv st \<Longrightarrow> attach_inv (foldl close_handler st is)"
  by (induction "is" arbitrary: st) (simp_all add: close_handler_inv)

lemma attach_inv_step: "attach_inv st \<Longrightarrow> attach_inv (attach_step st ev)"
proof (cases ev)
  case AtInvoke
  assume "attach_inv st"
  then show ?thesis using AtInvoke
    by (auto simp: attach_inv_def Let_def once_def removeAllListeners_def)
next
  case (AtConnection sock)
  assume "attach_inv st"
  then have "attach_inv (st\<lparr>as_emitter :=
            filter (\<lambda>r. \<not> (reg_event r = ''connection'' \<and> reg_once r)) (as_emitter st)\<rparr>)"
    by (simp add: attach_inv_def)
  then show ?thesis using AtConnection by (simp add: foldl_connection_listener_inv)
next
  case (AtSocketClose sock)
  assume "attach_inv st"
  then have "attach_inv (st\<lparr>as_close_handlers := filter (\<lambda>h. fst h \<noteq> sock) (as_close_handlers st)\<rparr>)"
    by (simp add: attach_inv_def)
  then show ?thesis using AtSocketClose by (simp add: foldl_close_handler_inv)
next
  case (AtError e)
  assume "attach_inv st"
  then show ?thesis using AtError by (simp add: attach_inv_def)
qed

lemma attach_run_snoc: "attach_run tp (evs @ [ev]) = attach_step (attach_run tp evs) ev"
  by (simp add: attach_run_def)

lemma attach_inv_run: "attach_inv (attach_run tp evs)"
proof (induction evs rule: rev_induct)
  case Nil
  show ?case by (simp add: attach_run_def tcp_attach_def attach_inv_def)
next
  case (snoc ev evs)
  then show ?case by (simp add: attach_run_snoc attach_inv_step)
qed

lemma foldl_close_handler_promises:
  "as_promises (foldl close_handler st is) = as_promises st"
  by (induction "is" arbitrary: st) (simp_all add: close_handler_def)

lemma pending_step:
  "\<forall>pr \<in> set (as_promises st). pr = Pending \<Longrightarrow> \<not> is_attach_connection ev \<Longrightarrow>
     \<forall>pr \<in> set (as_promises (attach_step st ev)). pr = Pending"
  by (cases ev) (auto simp: Let_def foldl_close_handler_promises)

lemma pending_run:
  "\<forall>ev \<in> set evs. \<not> is_attach_connection ev \<Longrightarrow>
     \<forall>pr \<in> set (as_promises (attach_run tp evs)). pr = Pending"
proof (induction evs rule: rev_induct)
  case Nil
  show ?case by (simp add: attach_run_def tcp_attach_def)
next
  case (snoc ev evs)
  then show ?case using pending_step [of "attach_run tp evs" ev]
    by (simp add: attach_run_snoc)
qed

lemma attach_errors_append: "attach_errors (xs @ ys) = attach_errors xs @ attach_errors ys"
  by (simp add: attach_errors_def)

lemma foldl_connection_listener_unhandled:
  "as_unhandled (foldl (connection_listener sock) st is) = as_unhandled st"
  by (induction "is" arbitrary: st) (simp_all add: connection_listener_def)

lemma foldl_connection_listener_length:
  "length (as_promises (foldl (connection_listener sock) st is)) = length (as_promises st)"
  by (induction "is" arbitrary: st) (simp_all add: connection_listener_def)

lemma foldl_close_handler_unhandled:
  "as_unhandled (foldl close_handler st is) = as_unhandled st"
  by (induction "is" arbitrary: st) (simp_all add: close_handler_def)

lemma no_error_listeners:
  assumes "attach_inv st"
  shows "listeners ''error'' (as_emitter st) = []"
proof -
  from assms have "\<forall>r \<in> set (as_emitter st). reg_event r = ''connection''"
    by (simp add: attach_inv_def)
  then have "\<forall>r \<in> set (as_emitter st). reg_event r \<noteq> ''error''" by simp
  then have "filter (\<lambda>r. reg_event r = ''error'') (as_emitter st) = []"
    by (simp add: filter_empty_conv)
  then show ?thesis by (simp add: listeners_def)
qed

lemma unhandled_step:
  assumes "attach_inv st"
  shows "as_unhandled (attach_step st ev) = as_unhandled st @ attach_errors [ev]"
proof (cases ev)
  case AtInvoke
  then show ?thesis by (simp add: attach_errors_def Let_def)
next
  case (AtConnection sock)
  then show ?thesis by (simp add: attach_errors_def foldl_connection_listener_unhandled)
next
  case (AtSocketClose sock)
  then show ?thesis by (simp add: attach_errors_def foldl_close_handler_unhandled)
next
  case (AtError e)
  with no_error_listeners [OF assms] show ?thesis by (simp add: attach_errors_def)
qed

lemma unhandled_run: "as_unhandled (attach_run tp evs) = attach_errors evs"
proof (induction evs rule: rev_induct)
  case Nil
  show ?case by (simp add: attach_run_def tcp_attach_def attach_errors_def)
next
  case (snoc ev evs)
  from unhandled_step [OF attach_inv_run, of tp evs ev] snoc show ?case
    by (simp add: attach_run_snoc attach_errors_append)
qed

lemma promises_length_step:
  "length (as_promises (attach_step st ev))
     = length (as_promises st) + count_list [ev] AtInvoke"
  by (cases ev)
     (simp_all add: Let_def foldl_connection_listener_length foldl_close_handler_promises)

lemma count_list_snoc: "count_list (xs @ ys) a = count_list xs a + count_list ys a"
  by (induction xs) simp_all

lemma promises_length_run:
  "length (as_promises (attach_run tp evs)) = count_list evs AtInvoke"
proof (induction evs rule: rev_induct)
  case Nil
  show ?case by (simp add: attach_run_def tcp_attach_def)
next
  case (snoc ev evs)
  from promises_length_step [of "attach_run tp evs" ev] snoc show ?case
    by (simp add: attach_run_snoc count_list_snoc)
qed

text \<open>
  C10, as amended. After every sequence of invocations, connections, socket closes and
  errors of the listening socket, every invocation has its promise and none of them is
  rejected; as long as no connection has arrived (as after a failed bind) every one of
  them is still pending. The errors do not vanish: the server has no listener for
  \<^verbatim>\<open>"error"\<close>, so the emitter throws each of them as an unhandled event, outside the
  channel source.
\<close>

theorem tcp_attach_never_rejects:
  "(\<forall>pr \<in> set (as_promises (attach_run tp evs)). \<forall>e. pr \<noteq> Rejected e)
   \<and> ((\<forall>ev \<in> set evs. \<not> is_attach_connection ev) \<longrightarrow>
        (\<forall>pr \<in> set (as_promises (attach_run tp evs)). pr = Pending))
   \<and> length (as_promises (attach_run tp evs)) = count_list evs AtInvoke
   \<and> as_unhandled (attach_run tp evs) = attach_errors evs"
  using attach_inv_run [of tp evs] pending_run [of evs tp]
    promises_length_run [of tp evs] unhandled_run [of tp evs]
  by (simp add: attach_inv_def)

theorem tcp_attach_never_rejects_witness:
  "as_promises (attach_run 5000 [AtError ''EADDRINUSE'', AtInvoke]) = [Pending]
   \<and> Rejected ''EADDRINUSE'' \<notin> set (as_promises (attach_run 5000 [AtError ''EADDRINUSE'', AtInvoke]))
   \<and> Pending \<in> set (as_promises (attach_run 5000 [AtError ''EADDRINUSE'', AtInvoke]))
   \<and> length (as_promises (attach_run 5000 [AtError ''EADDRINUSE'', AtInvoke])) = 1
   \<and> as_unhandled (attach_run 5000 [AtError ''EADDRINUSE'', AtInvoke]) = [''EADDRINUSE'']"
proof -
  have h: "\<forall>ev \<in> set [AtError ''EADDRINUSE'', AtInvoke]. \<not> is_attach_connection ev"
    by simp
  have a: "attach_errors [AtError ''EADDRINUSE'', AtInvoke] = [''EADDRINUSE'']"
    by (simp add: attach_errors_def)
  have c: "count_list [AtError ''EADDRINUSE'', AtInvoke] AtInvoke = 1"
    by simp
  note t = tcp_attach_never_rejects [of 5000 "[AtError ''EADDRINUSE'', AtInvoke]"]
  from t h have p: "\<forall>pr \<in> set (as_promises (attach_run 5000 [AtError ''EADDRINUSE'', AtInvoke])).
      pr = Pending" by blast
  from t c have n: "length (as_promises (attach_run 5000 [AtError ''EADDRINUSE'', AtInvoke])) = 1"
    by simp
  from n obtain pr where v: "as_promises (attach_run 5000 [AtError ''EADDRINUSE'', AtInvoke]) = [pr]"
    by (cases "as_promises (attach_run 5000 [AtError ''EADDRINUSE'', AtInvoke])") auto
  with p have "pr = Pending" by simp
  with v have v': "as_promises (attach_run 5000 [AtError ''EADDRINUSE'', AtInvoke]) = [Pending]"
    by simp
  from t a have u: "as_unhandled (attach_run 5000 [AtError ''EADDRINUSE'', AtInvoke])
      = [''EADDRINUSE'']" by simp
  from v' u show ?thesis by simp
qed

text \<open>
  The claim as stated has a failed bind leave no observable error. The promise of the
  invocation that follows stays pending, but the error is thrown by the emitter.
\<close>

theorem tcp_attach_never_rejects_counterexample:
  "as_promises (attach_run 5000 [AtError ''EADDRINUSE'', AtInvoke]) = [Pending]
   \<and> as_unhandled (attach_run 5000 [AtError ''EADDRINUSE'', AtInvoke]) = [''EADDRINUSE'']"
  by (simp add: attach_run_def tcp_attach_def listeners_def)

subsection \<open>Listeners left on the server\<close>

text \<open>
  Nothing is ever registered for the event \<^verbatim>\<open>"connect"\<close>, so the removal at the start of
  an invocation changes nothing.
\<close>

lemma removeAllListeners_connect_noop:
  "removeAllListeners ''connect'' (as_emitter (attach_run tp evs)) = as_emitter (attach_run tp evs)"
  using attach_inv_run [of tp evs]
  by (auto simp: attach_inv_def removeAllListeners_def filter_id_conv)

text \<open>
  C2. The claim is that at most one connection listener is registered at any time.
  Two invocations in a row, with no connection in between, leave the listeners of both
  on the server: the removal names the event \<^verbatim>\<open>"connect"\<close> while the listener is added
  to \<^verbatim>\<open>"connection"\<close>. The next connection then runs both and resolves both promises
  with the same socket.
\<close>

theorem tcp_attach_two_pending_listeners:
  "listeners ''connection'' (as_emitter (attach_run 5000 [AtInvoke, AtInvoke])) = [0, 1]
   \<and> as_promises (attach_run 5000 [AtInvoke, AtInvoke, AtConnection 7])
       = [Resolved \<lparr>reader = 7, writer = 7\<rparr>, Resolved \<lparr>reader = 7, writer = 7\<rparr>]"
  by (simp add: attach_run_def tcp_attach_def listeners_def once_def removeAllListeners_def
      connection_listener_def)


section \<open>The activation routine\<close>

lemmas activation_defs =
  activateLanguageServer_def prepare_and_connect_def serverOptions_def select_transport_def
  connect_via_def register_and_await_def stdio_launch_def stdio_env_def startScriptPath_def
  langServerInstallDir_def join_slash_def TransportLayer_index_undefined_def TransportLayer_def
  object_prototype_keys_def STDIO_def TCP_def TCP_RANDOM_def TCP_ATTACH_def endsWith_def
  registered_commands_def warnings_def example_params_def example_host_def

subsection \<open>Failure of the download\<close>

text \<open>
  C9. Without a custom server path, a failed download makes the routine return without
  a value instead of throwing, with exactly one warning shown to the user, which
  carries the error; no client is created or started and no command is registered.
\<close>

theorem download_failure_aborts:
  assumes "\<not> truthy (cfg_languageServer_path p)" and "download_error h = Some err"
  shows "snd (activateLanguageServer p h) = ReturnsUndefined
       \<and> warnings (fst (activateLanguageServer p h))
           = [''Could not update/download Kotlin Language Server: '' @ err]
       \<and> CreateLanguageClient \<notin> set (fst (activateLanguageServer p h))
       \<and> ClientStart \<notin> set (fst (activateLanguageServer p h))
       \<and> registered_commands (fst (activateLanguageServer p h)) = []"
  using assms by (simp add: activateLanguageServer_def warnings_def registered_commands_def)

theorem download_failure_aborts_witness:
  "\<not> truthy (cfg_languageServer_path (example_params\<lparr>cfg_languageServer_path := None\<rparr>))
   \<and> download_error (example_host\<lparr>download_error := Some ''Error: ENOTFOUND''\<rparr>)
       = Some ''Error: ENOTFOUND''
   \<and> snd (activateLanguageServer (example_params\<lparr>cfg_languageServer_path := None\<rparr>)
            (example_host\<lparr>download_error := Some ''Error: ENOTFOUND''\<rparr>)) = ReturnsUndefined
   \<and> warnings (fst (activateLanguageServer (example_params\<lparr>cfg_languageServer_path := None\<rparr>)
            (example_host\<lparr>download_error := Some ''Error: ENOTFOUND''\<rparr>)))
       = [''Could not update/download Kotlin Language Server: Error: ENOTFOUND'']
   \<and> CreateLanguageClient \<notin> set (fst (activateLanguageServer
            (example_params\<lparr>cfg_languageServer_path := None\<rparr>)
            (example_host\<lparr>download_error := Some ''Error: ENOTFOUND''\<rparr>)))"
proof -
  have a: "\<not> truthy (cfg_languageServer_path (example_params\<lparr>cfg_languageServer_path := None\<rparr>))"
    by simp
  have b: "download_error (example_host\<lparr>download_error := Some ''Error: ENOTFOUND''\<rparr>)
       = Some ''Error: ENOTFOUND''"
    by simp
  from download_failure_aborts [OF a b] a b show ?thesis by simp
qed

subsection \<open>Commands that use the protocol extensions\<close>

lemma effects_append_simps:
  "registered_commands (xs @ ys) = registered_commands xs @ registered_commands ys"
  by (simp add: registered_commands_def)

lemma select_transport_effects:
  "registered_commands (snd (select_transport v)) = []
   \<and> CreateLanguageClient \<notin> set (snd (select_transport v))"
  by (simp add: select_transport_def registered_commands_def)

lemma connect_via_effects:
  "registered_commands (fst (connect_via p h v)) = []
   \<and> CreateLanguageClient \<notin> set (fst (connect_via p h v))"
  by (simp add: connect_via_def registered_commands_def)

lemma serverOptions_effects:
  "registered_commands (fst (serverOptions p h)) = []
   \<and> CreateLanguageClient \<notin> set (fst (serverOptions p h))"
  using select_transport_effects [of "cfg_languageServer_transport p"]
    connect_via_effects [of p h "fst (select_transport (cfg_languageServer_transport p))"]
  by (auto simp: serverOptions_def effects_append_simps registered_commands_def
      split: prod.splits sum.splits option.splits)

lemma register_and_await_effects:
  "registered_commands (fst (register_and_await p h)) = expected_commands p h
   \<and> CreateLanguageClient \<in> set (fst (register_and_await p h))"
  by (auto simp: register_and_await_def registered_commands_def expected_commands_def)

lemma prepare_and_connect_effects:
  "(CreateLanguageClient \<in> set (fst (prepare_and_connect p h)) \<longrightarrow>
      registered_commands (fst (prepare_and_connect p h)) = expected_commands p h)
   \<and> (CreateLanguageClient \<notin> set (fst (prepare_and_connect p h)) \<longrightarrow>
      registered_commands (fst (prepare_and_connect p h)) = [])"
  using serverOptions_effects [of p h] register_and_await_effects [of p h]
  by (auto simp: prepare_and_connect_def effects_append_simps registered_commands_def Let_def
      split: prod.splits sum.splits option.splits)

text \<open>
  C5, as amended. Whenever activation gets as far as creating the client, the
  override-member command is registered, with or without a custom server path. The
  main-class command (with the two commands that run and debug a main class) is
  registered exactly when, in addition, the debug adapter is enabled and the path of
  the start script ends in \<^verbatim>\<open>kotlin-language-server\<close>; with a custom path configured
  that path is the custom one. When activation stops before creating the client,
  no command is registered.
\<close>

theorem commands_registered:
  "(CreateLanguageClient \<in> set (fst (activateLanguageServer p h)) \<longrightarrow>
      registered_commands (fst (activateLanguageServer p h)) =
        ''kotlin.overrideMember'' #
        (if cfg_debugAdapter_enabled p \<and> endsWith (startScriptPath p h) ''kotlin-language-server''
         then [''kotlin.resolveMain'', ''kotlin.runMain'', ''kotlin.debugMain''] else []))
   \<and> (CreateLanguageClient \<notin> set (fst (activateLanguageServer p h)) \<longrightarrow>
      registered_commands (fst (activateLanguageServer p h)) = [])
   \<and> (truthy (cfg_languageServer_path p) \<longrightarrow>
      startScriptPath p h = the (cfg_languageServer_path p))"
  using prepare_and_connect_effects [of p h]
  by (auto simp: activateLanguageServer_def effects_append_simps registered_commands_def Let_def
      expected_commands_def startScriptPath_def
      split: prod.splits option.splits)

theorem commands_registered_witness:
  "CreateLanguageClient \<in> set (fst (activateLanguageServer example_params example_host))
   \<and> truthy (cfg_languageServer_path example_params)
   \<and> startScriptPath example_params example_host = ''/opt/kls/bin/server''
   \<and> registered_commands (fst (activateLanguageServer example_params example_host))
       = [''kotlin.overrideMember'']
   \<and> CreateLanguageClient \<notin> set (fst (activateLanguageServer
         (example_params\<lparr>storageUri := None\<rparr>) example_host))
   \<and> registered_commands (fst (activateLanguageServer
         (example_params\<lparr>storageUri := None\<rparr>) example_host)) = []"
proof -
  have c: "CreateLanguageClient \<in> set (fst (activateLanguageServer example_params example_host))"
    by (simp add: activation_defs)
  have t: "truthy (cfg_languageServer_path example_params)"
    by (simp add: example_params_def)
  have n: "CreateLanguageClient \<notin> set (fst (activateLanguageServer
         (example_params\<lparr>storageUri := None\<rparr>) example_host))"
    by (simp add: activation_defs)
  have p: "the (cfg_languageServer_path example_params) = ''/opt/kls/bin/server''"
    by (simp add: example_params_def)
  note a = commands_registered [of example_params example_host]
  note b = commands_registered [of "example_params\<lparr>storageUri := None\<rparr>" example_host]
  from a t p have s: "startScriptPath example_params example_host = ''/opt/kls/bin/server''"
    by simp
  have e: "\<not> endsWith ''/opt/kls/bin/server'' ''kotlin-language-server''"
    by (simp add: endsWith_def)
  from a c s e have r: "registered_commands (fst (activateLanguageServer example_params example_host))
       = [''kotlin.overrideMember'']"
    by simp
  from b n have r': "registered_commands (fst (activateLanguageServer
         (example_params\<lparr>storageUri := None\<rparr>) example_host)) = []"
    by simp
  from c t s r n r' show ?thesis by simp
qed

text \<open>
  The claim as stated has neither extension used when a custom server path is
  configured. With the custom path \<^verbatim>\<open>/opt/kls/bin/server\<close> the override-member command
  is registered all the same, and with a custom path that ends in
  \<^verbatim>\<open>kotlin-language-server\<close> so is the main-class command.
\<close>

theorem commands_registered_counterexample:
  "truthy (cfg_languageServer_path example_params)
   \<and> ''kotlin.overrideMember''
       \<in> set (registered_commands (fst (activateLanguageServer example_params example_host)))
   \<and> truthy (cfg_languageServer_path
        (example_params\<lparr>cfg_languageServer_path := Some ''/opt/kls/bin/kotlin-language-server''\<rparr>))
   \<and> ''kotlin.resolveMain''
       \<in> set (registered_commands (fst (activateLanguageServer
            (example_params\<lparr>cfg_languageServer_path := Some ''/opt/kls/bin/kotlin-language-server''\<rparr>)
            example_host)))"
  by (simp add: activation_defs)

subsection \<open>Environment of the spawned server\<close>

lemma stdio_descriptor_env:
  "env (stdio_launch ws sp (stdio_env p h) (cfg_languageServer_debugAttach p)) =
     (\<lambda>k. if k = ''KOTLIN_LANGUAGE_SERVER_OPTS'' \<and> is_enabled (cfg_languageServer_debugAttach p)
          then Some (''-Xdebug -agentlib:jdwp=transport=dt_socket,address=''
                     @ js_number_to_string (port (cfg_languageServer_debugAttach p))
                     @ '',server=y,quiet=y,suspend=''
                     @ (if auto_suspend (cfg_languageServer_debugAttach p) then ''y'' else ''n''))
          else if k = ''JAVA_OPTS'' \<and> truthy (javaOpts p) then javaOpts p
          else if k = ''JAVA_HOME'' \<and> truthy (javaHome p) then javaHome p
          else process_env h k)"
proof (rule ext)
  fix k
  have jo: "truthy (javaOpts p) \<Longrightarrow> Some (the (javaOpts p)) = javaOpts p"
    by (cases "javaOpts p") simp_all
  have jh: "truthy (javaHome p) \<Longrightarrow> Some (the (javaHome p)) = javaHome p"
    by (cases "javaHome p") simp_all
  show "env (stdio_launch ws sp (stdio_env p h) (cfg_languageServer_debugAttach p)) k =
     (if k = ''KOTLIN_LANGUAGE_SERVER_OPTS'' \<and> is_enabled (cfg_languageServer_debugAttach p)
          then Some (''-Xdebug -agentlib:jdwp=transport=dt_socket,address=''
                     @ js_number_to_string (port (cfg_languageServer_debugAttach p))
                     @ '',server=y,quiet=y,suspend=''
                     @ (if auto_suspend (cfg_languageServer_debugAttach p) then ''y'' else ''n''))
          else if k = ''JAVA_OPTS'' \<and> truthy (javaOpts p) then javaOpts p
          else if k = ''JAVA_HOME'' \<and> truthy (javaHome p) then javaHome p
          else process_env h k)"
    using jo jh by (simp add: stdio_launch_def stdio_env_def Let_def)
qed

lemma serverOptions_stdio:
  assumes "js_loose_eq_str (fst (select_transport (cfg_languageServer_transport p))) STDIO"
  shows "snd (serverOptions p h) =
     (if isOSUnixoid h \<and> (isl (script_mode h) \<or> chmod_error h \<noteq> None)
      then Inl (case script_mode h of Inl err \<Rightarrow> err | Inr mode \<Rightarrow> the (chmod_error h))
      else Inr (SOExecutable (stdio_launch (workspaceFolder h) (startScriptPath p h)
                                (stdio_env p h) (cfg_languageServer_debugAttach p))))"
proof -
  let ?t = "fst (select_transport (cfg_languageServer_transport p))"
  from assms have t: "?t = JStr STDIO" by (rule js_loose_eq_strD)
  have na: "\<not> js_loose_eq_str (JStr STDIO) TCP_ATTACH"
    by (simp add: STDIO_def TCP_ATTACH_def)
  have c: "snd (connect_via p h (JStr STDIO)) =
      SOExecutable (stdio_launch (workspaceFolder h) (startScriptPath p h)
                                (stdio_env p h) (cfg_languageServer_debugAttach p))"
    by (simp add: connect_via_def)
  show ?thesis
  proof (cases "isOSUnixoid h")
    case False
    with c show ?thesis by (simp add: serverOptions_def split_beta t)
  next
    case True
    show ?thesis
    proof (cases "script_mode h")
      case (Inl err)
      with True na show ?thesis by (simp add: serverOptions_def split_beta t)
    next
      case (Inr mode)
      show ?thesis
      proof (cases "chmod_error h")
        case None
        with True Inr na c show ?thesis by (simp add: serverOptions_def split_beta t)
      next
        case (Some err)
        with True Inr na show ?thesis by (simp add: serverOptions_def split_beta t)
      qed
    qed
  qed
qed

text \<open>
  C6, as amended. When the transport in effect after the selection is \<^verbatim>\<open>stdio\<close>, the
  server options built by the routine start the server process (unless making the
  start script executable fails, in which case there are none) with the environment of
  the extension host in which \<^verbatim>\<open>KOTLIN_LANGUAGE_SERVER_OPTS\<close> is set to the debug string
  when debugging is enabled, \<^verbatim>\<open>JAVA_OPTS\<close> is set when Java options are configured and
  \<^verbatim>\<open>JAVA_HOME\<close> is set when a Java home was resolved. Every other variable, and each of
  the three when its condition does not hold, is as inherited.
\<close>

theorem spawned_environment:
  assumes "js_loose_eq_str (fst (select_transport (cfg_languageServer_transport p))) STDIO"
  shows "server_process_env p h b =
     (if isOSUnixoid h \<and> (isl (script_mode h) \<or> chmod_error h \<noteq> None) then None
      else Some (\<lambda>k.
        if k = ''KOTLIN_LANGUAGE_SERVER_OPTS'' \<and> is_enabled (cfg_languageServer_debugAttach p)
        then Some (''-Xdebug -agentlib:jdwp=transport=dt_socket,address=''
                   @ js_number_to_string (port (cfg_languageServer_debugAttach p))
                   @ '',server=y,quiet=y,suspend=''
                   @ (if auto_suspend (cfg_languageServer_debugAttach p) then ''y'' else ''n''))
        else if k = ''JAVA_OPTS'' \<and> truthy (javaOpts p) then javaOpts p
        else if k = ''JAVA_HOME'' \<and> truthy (javaHome p) then javaHome p
        else process_env h k))"
  unfolding server_process_env_def serverOptions_stdio [OF assms]
  by (simp add: stdio_descriptor_env)

theorem spawned_environment_witness:
  "js_loose_eq_str (fst (select_transport (cfg_languageServer_transport example_params))) STDIO
   \<and> server_process_env example_params
        (example_host\<lparr>process_env := [''PATH'' \<mapsto> ''/usr/bin'']\<rparr>) 0 \<noteq> None
   \<and> the (server_process_env example_params
        (example_host\<lparr>process_env := [''PATH'' \<mapsto> ''/usr/bin'']\<rparr>) 0) ''JAVA_HOME''
       = Some ''/usr/lib/jvm/java-17''
   \<and> the (server_process_env example_params
        (example_host\<lparr>process_env := [''PATH'' \<mapsto> ''/usr/bin'']\<rparr>) 0) ''JAVA_OPTS''
       = Some ''-Xmx2g''
   \<and> the (server_process_env example_params
        (example_host\<lparr>process_env := [''PATH'' \<mapsto> ''/usr/bin'']\<rparr>) 0)
         ''KOTLIN_LANGUAGE_SERVER_OPTS''
       = Some ''-Xdebug -agentlib:jdwp=transport=dt_socket,address=5005,server=y,quiet=y,suspend=n''
   \<and> the (server_process_env example_params
        (example_host\<lparr>process_env := [''PATH'' \<mapsto> ''/usr/bin'']\<rparr>) 0) ''PATH''
       = Some ''/usr/bin''"
proof -
  let ?h = "example_host\<lparr>process_env := [''PATH'' \<mapsto> ''/usr/bin'']\<rparr>"
  have s: "js_loose_eq_str (fst (select_transport (cfg_languageServer_transport example_params))) STDIO"
    by (simp add: example_params_def select_transport_def TransportLayer_index_undefined_def
        TransportLayer_def object_prototype_keys_def STDIO_def)
  have n: "js_number_to_string 5005 = ''5005''"
    by (simp add: js_number_to_string_def nat_to_string.simps digit_char_def)
  have v: "javaHome example_params = Some ''/usr/lib/jvm/java-17''"
    "javaOpts example_params = Some ''-Xmx2g''"
    "cfg_languageServer_debugAttach example_params
       = \<lparr>is_enabled = True, auto_suspend = False, port = 5005\<rparr>"
    by (simp_all add: example_params_def)
  have u: "isOSUnixoid ?h" "script_mode ?h = Inr 420" "chmod_error ?h = None"
    "process_env ?h = [''PATH'' \<mapsto> ''/usr/bin'']"
    by (simp_all add: example_host_def)
  note t = spawned_environment [OF s, of ?h 0]
  from s show ?thesis unfolding t by (simp add: v u n)
qed

text \<open>
  The claim as stated has the variable \<^verbatim>\<open>KOTLIN_LANGUAGE_SERVER_OPTS\<close> in the environment
  exactly when debugging is enabled. With \<^verbatim>\<open>stdio\<close> configured, debugging disabled and
  the variable already set in the environment of the extension host, the server
  process has it all the same.
\<close>

theorem spawned_environment_counterexample:
  "\<not> is_enabled (cfg_languageServer_debugAttach
        (example_params\<lparr>cfg_languageServer_debugAttach :=
           \<lparr>is_enabled = False, auto_suspend = False, port = 5005\<rparr>\<rparr>))
   \<and> server_process_env
        (example_params\<lparr>cfg_languageServer_debugAttach :=
           \<lparr>is_enabled = False, auto_suspend = False, port = 5005\<rparr>\<rparr>)
        (example_host\<lparr>process_env := [''KOTLIN_LANGUAGE_SERVER_OPTS'' \<mapsto> ''-Xmx1g'']\<rparr>) 0
       \<noteq> None
   \<and> the (server_process_env
        (example_params\<lparr>cfg_languageServer_debugAttach :=
           \<lparr>is_enabled = False, auto_suspend = False, port = 5005\<rparr>\<rparr>)
        (example_host\<lparr>process_env := [''KOTLIN_LANGUAGE_SERVER_OPTS'' \<mapsto> ''-Xmx1g'']\<rparr>) 0)
         ''KOTLIN_LANGUAGE_SERVER_OPTS''
       = Some ''-Xmx1g''"
  by (simp add: server_process_env_def serverOptions_def select_transport_def connect_via_def
      stdio_launch_def stdio_env_def TransportLayer_index_undefined_def TransportLayer_def
      object_prototype_keys_def STDIO_def TCP_ATTACH_def example_params_def example_host_def)

end
